theory Spec2Isabelle
  imports Complex_Main
begin

section \<open>Time\<close>

text \<open>
  A \<^verbatim>\<open>time.Duration\<close> is a count of nanoseconds, and a \<^verbatim>\<open>time.Time\<close> is read here as
  the monotonic clock reading, again in nanoseconds. Both are integers without a bound, and
  so are the retry counters and the backoffs: a run that could make their \<^verbatim>\<open>int64\<close> wrap
  around would have to sleep for longer than any clock lasts. A \<^verbatim>\<open>float64\<close> is read as a real number, with
  no infinity and no NaN; the arithmetic of \<open>Allow\<close> is exact, and \<open>Allow_float64\<close> further
  down writes the rounding out. The clock moves when something sleeps; a remote call takes no time on it.
\<close>

type_synonym Duration = int
type_synonym Time = int

definition Millisecond :: Duration where
  "Millisecond = 1000000"

definition Second :: Duration where
  "Second = 1000000000"

definition Seconds :: "Duration \<Rightarrow> real" where
  "Seconds d = real_of_int d / 1000000000"

definition Sub :: "Time \<Rightarrow> Time \<Rightarrow> Duration" where
  "Sub t u = t - u"

section \<open>The token bucket\<close>

record RateLimiter =
  tokens :: real
  capacity :: real
  refillRate :: real
  lastRefill :: Time

text \<open>\<^verbatim>\<open>func min(a, b float64) float64\<close>, the helper of the package.\<close>

definition min_float64 :: "real \<Rightarrow> real \<Rightarrow> real" where
  "min_float64 a b = (if a < b then a else b)"

text \<open>\<^verbatim>\<open>NewRateLimiter(rate, burst)\<close>; the third argument is what \<^verbatim>\<open>time.Now()\<close> returns.\<close>

definition NewRateLimiter :: "real \<Rightarrow> int \<Rightarrow> Time \<Rightarrow> RateLimiter" where
  "NewRateLimiter rate burst now =
     \<lparr>tokens = real_of_int burst, capacity = real_of_int burst,
      refillRate = rate, lastRefill = now\<rparr>"

text \<open>
  \<^verbatim>\<open>Allow\<close> at clock reading \<open>now\<close>: the answer and the limiter as the call leaves it.
\<close>

definition Allow :: "RateLimiter \<Rightarrow> Time \<Rightarrow> bool \<times> RateLimiter" where
  "Allow rl now =
     (let elapsed = Seconds (Sub now (lastRefill rl));
          rl1 = rl\<lparr>tokens := min_float64 (capacity rl) (tokens rl + elapsed * refillRate rl)\<rparr>;
          rl2 = rl1\<lparr>lastRefill := now\<rparr>
      in if tokens rl2 \<ge> 1 then (True, rl2\<lparr>tokens := tokens rl2 - 1\<rparr>)
         else (False, rl2))"

text \<open>A run of \<^verbatim>\<open>Allow\<close> calls, one at each clock reading of the list.\<close>

fun Allow_calls :: "RateLimiter \<Rightarrow> Time list \<Rightarrow> bool list \<times> RateLimiter" where
  "Allow_calls rl [] = ([], rl)"
| "Allow_calls rl (t # ts) =
     (case Allow rl t of (ok, rl1) \<Rightarrow>
        (case Allow_calls rl1 ts of (oks, rl2) \<Rightarrow> (ok # oks, rl2)))"

text \<open>The refill of the specification, with the minimum of the library.\<close>

definition refilled :: "RateLimiter \<Rightarrow> Time \<Rightarrow> real" where
  "refilled rl now =
     min (capacity rl) (tokens rl + Seconds (now - lastRefill rl) * refillRate rl)"

definition allow_spec :: "RateLimiter \<Rightarrow> Time \<Rightarrow> bool \<times> RateLimiter" where
  "allow_spec rl now =
     (if refilled rl now \<ge> 1
      then (True, rl\<lparr>tokens := refilled rl now - 1, lastRefill := now\<rparr>)
      else (False, rl\<lparr>tokens := refilled rl now, lastRefill := now\<rparr>))"

text \<open>Consecutive clock readings at least \<open>1 / rate\<close> seconds apart.\<close>

fun spaced :: "real \<Rightarrow> Time list \<Rightarrow> bool" where
  "spaced rate [] = True"
| "spaced rate [t] = True"
| "spaced rate (t # u # ts) = (Seconds (Sub u t) \<ge> 1 / rate \<and> spaced rate (u # ts))"

section \<open>The token bucket in \<^verbatim>\<open>float64\<close>\<close>

text \<open>
  The rounding of IEEE 754 binary64 for values in the normal range: to the nearest number
  with a significand of 53 bits, ties to the even one. \<open>binade a\<close> is the exponent \<open>e\<close> with
  \<open>2 ^ e \<le> a < 2 ^ (e + 1)\<close>, and \<open>ulp e\<close> the gap between neighbours there.
\<close>

function bit_length :: "nat \<Rightarrow> nat" where
  "bit_length n = (if n = 0 then 0 else Suc (bit_length (n div 2)))"
  by pat_completeness auto
termination
  by (relation "measure id") auto

declare bit_length.simps [simp del]

definition binade :: "real \<Rightarrow> int" where
  "binade a =
     (if 1 \<le> a then int (bit_length (nat \<lfloor>a\<rfloor>)) - 1
      else - int (bit_length (nat (\<lceil>1 / a\<rceil> - 1))))"

definition ulp :: "int \<Rightarrow> real" where
  "ulp e = (if 52 \<le> e then 2 ^ nat (e - 52) else 1 / 2 ^ nat (52 - e))"

definition round_to_even :: "real \<Rightarrow> int" where
  "round_to_even x =
     (let n = \<lfloor>x\<rfloor>; r = x - of_int n
      in if r < 1 / 2 then n else if 1 / 2 < r then n + 1
         else if even n then n else n + 1)"

definition float64 :: "real \<Rightarrow> real" where
  "float64 x =
     (if x = 0 then 0
      else (let a = \<bar>x\<bar>; u = ulp (binade a)
            in sgn x * (real_of_int (round_to_even (a / u)) * u)))"

text \<open>
  \<^verbatim>\<open>Duration.Seconds\<close> as the library computes it: whole seconds and the remaining
  nanoseconds, each converted, the latter divided by \<open>1e9\<close>, and the two added.
\<close>

definition Seconds_float64 :: "Duration \<Rightarrow> real" where
  "Seconds_float64 d =
     (let sec = sgn d * (\<bar>d\<bar> div Second);
          nsec = sgn d * (\<bar>d\<bar> mod Second)
      in float64 (float64 (real_of_int sec) + float64 (float64 (real_of_int nsec) / 1000000000)))"

text \<open>
  \<^verbatim>\<open>Allow\<close> once more, with the result of every \<^verbatim>\<open>float64\<close> operation rounded. Where the
  platform fuses the product and the sum into one rounding, the run shown below ends the
  same way.
\<close>

definition Allow_float64 :: "RateLimiter \<Rightarrow> Time \<Rightarrow> bool \<times> RateLimiter" where
  "Allow_float64 rl now =
     (let elapsed = Seconds_float64 (Sub now (lastRefill rl));
          rl1 = rl\<lparr>tokens := min_float64 (capacity rl)
                   (float64 (tokens rl + float64 (elapsed * refillRate rl)))\<rparr>;
          rl2 = rl1\<lparr>lastRefill := now\<rparr>
      in if tokens rl2 \<ge> 1 then (True, rl2\<lparr>tokens := float64 (tokens rl2 - 1)\<rparr>)
         else (False, rl2))"

fun Allow_float64_calls :: "RateLimiter \<Rightarrow> Time list \<Rightarrow> bool list \<times> RateLimiter" where
  "Allow_float64_calls rl [] = ([], rl)"
| "Allow_float64_calls rl (t # ts) =
     (case Allow_float64 rl t of (ok, rl1) \<Rightarrow>
        (case Allow_float64_calls rl1 ts of (oks, rl2) \<Rightarrow> (ok # oks, rl2)))"

section \<open>Waiting for a token\<close>

text \<open>
  \<^verbatim>\<open>time.Sleep(d)\<close> moves the clock forward by \<open>d\<close>; a negative or zero duration returns
  at once.
\<close>

definition Sleep :: "Duration \<Rightarrow> Time \<Rightarrow> Time" where
  "Sleep d now = (if d \<le> 0 then now else now + d)"

text \<open>The conversion \<^verbatim>\<open>time.Duration(x)\<close> of a \<^verbatim>\<open>float64\<close> drops the fraction.\<close>

definition truncate_float64 :: "real \<Rightarrow> int" where
  "truncate_float64 x = (if 0 \<le> x then \<lfloor>x\<rfloor> else \<lceil>x\<rceil>)"

text \<open>The value an \<^verbatim>\<open>int64\<close> takes when a result leaves its range.\<close>

definition int64 :: "int \<Rightarrow> int" where
  "int64 x = (x + 2 ^ 63) mod 2 ^ 64 - 2 ^ 63"

text \<open>
  The pause between two polls of \<^verbatim>\<open>Wait\<close>, clamped to 10 ms .. 1 s. The product with
  \<^verbatim>\<open>time.Millisecond\<close> wraps around as the \<^verbatim>\<open>int64\<close> of a \<^verbatim>\<open>Duration\<close> does. For a refill
  rate of 0 the source divides into an infinity, and for a quotient beyond \<^verbatim>\<open>int64\<close> Go
  leaves the conversion to the platform; the quotient is 0, respectively unbounded, here.
\<close>

definition waitTime :: "RateLimiter \<Rightarrow> Duration" where
  "waitTime rl =
     (let waitTime = int64 (truncate_float64 (1000 / refillRate rl) * Millisecond)
      in if waitTime < 10 * Millisecond then 10 * Millisecond
         else if waitTime > 1 * Second then 1 * Second
         else waitTime)"

text \<open>
  \<^verbatim>\<open>Wait\<close> entered at clock reading \<open>now\<close>: the limiter and the clock when it returns,
  \<open>None\<close> when the loop never ends.
\<close>

partial_function (option) Wait :: "RateLimiter \<Rightarrow> Time \<Rightarrow> (RateLimiter \<times> Time) option" where
  "Wait rl now =
     (case Allow rl now of (ok, rl1) \<Rightarrow>
        if ok then Some (rl1, now) else Wait rl1 (Sleep (waitTime rl1) now))"

declare Wait.simps [code]

text \<open>
  A caller of the limiter: each call names the time that passed on the clock since the
  previous call returned.
\<close>

datatype limiter_call = DoAllow nat | DoWait nat

fun run_calls :: "RateLimiter \<times> Time \<Rightarrow> limiter_call list \<Rightarrow> (RateLimiter \<times> Time) option" where
  "run_calls s [] = Some s"
| "run_calls (rl, now) (DoAllow d # cs) =
     run_calls (snd (Allow rl (now + int d)), now + int d) cs"
| "run_calls (rl, now) (DoWait d # cs) =
     (case Wait rl (now + int d) of None \<Rightarrow> None | Some s \<Rightarrow> run_calls s cs)"

section \<open>Errors\<close>

text \<open>
  The dynamic types an \<^verbatim>\<open>error\<close> value has here: \<^verbatim>\<open>*googleapi.Error\<close> with its code and
  message, a package-level sentinel, a plain error string (\<^verbatim>\<open>errors.New\<close>, \<^verbatim>\<open>fmt.Errorf\<close>),
  and an error that wraps another one. The nil error is \<open>None\<close>. A nil pointer of type
  \<^verbatim>\<open>*googleapi.Error\<close> inside a non-nil error is not among the values: the remote calls
  never return one.
\<close>

datatype error =
    GoogleapiError int string
  | Sentinel string
  | ErrorString string
  | WrapError string error

definition ErrNotExist :: error where
  "ErrNotExist = Sentinel ''not exist''"

text \<open>
  The test of the wrappers and of the reads: the type assertion of \<^verbatim>\<open>err\<close> to a
  \<^verbatim>\<open>googleapi.Error\<close> pointer succeeds, and its \<^verbatim>\<open>Code\<close> equals \<open>n\<close>.
\<close>

fun isGoogleapiCode :: "int \<Rightarrow> error option \<Rightarrow> bool" where
  "isGoogleapiCode n (Some (GoogleapiError code msg)) = (code = n)"
| "isGoogleapiCode n (Some (Sentinel s)) = False"
| "isGoogleapiCode n (Some (ErrorString s)) = False"
| "isGoogleapiCode n (Some (WrapError s e)) = False"
| "isGoogleapiCode n None = False"

text \<open>The verb \<^verbatim>\<open>%d\<close>: an integer in decimal.\<close>

definition digit :: "nat \<Rightarrow> char" where
  "digit d = ''0123456789'' ! d"

function decimal :: "nat \<Rightarrow> string" where
  "decimal n = (if n < 10 then [digit n] else decimal (n div 10) @ [digit (n mod 10)])"
  by pat_completeness auto
termination
  by (relation "measure id") auto

declare decimal.simps [simp del]

definition fmt_d :: "int \<Rightarrow> string" where
  "fmt_d i = (if i < 0 then CHR ''-'' # decimal (nat (- i)) else decimal (nat i))"

section \<open>The client and its surroundings\<close>

record ClientOptions =
  CredentialFile :: string
  AccountId :: string
  ContainerId :: string
  RetryLimit :: int
  RateLimit :: real
  RateBurst :: int
  ThrottleEnabled :: bool

record Client =
  Options :: ClientOptions

text \<open>
  What a retry wrapper does to its surroundings: it may wait on the limiter, it invokes the
  remote call, and it sleeps. The limiter that \<^verbatim>\<open>c.rateLimiter\<close> points to is kept in the
  surroundings (\<open>None\<close> for the nil pointer), since it is the one part of the client that
  changes. \<open>calls\<close> counts the invocations of the remote call, and \<open>trace\<close> lists what
  happened, oldest first. The progress lines printed on standard output are left out.
\<close>

datatype event = Admitted | Called | Slept Duration

record world =
  limiter :: "RateLimiter option"
  clock :: Time
  calls :: nat
  trace :: "event list"

text \<open>
  \<^verbatim>\<open>NewClient\<close> builds the limiter only when throttling is enabled; the service handle is
  outside this development.
\<close>

definition NewClient_rateLimiter :: "ClientOptions \<Rightarrow> Time \<Rightarrow> RateLimiter option" where
  "NewClient_rateLimiter opts now =
     (if ThrottleEnabled opts then Some (NewRateLimiter (RateLimit opts) (RateBurst opts) now)
      else None)"

text \<open>
  A remote call is the \<^verbatim>\<open>Do\<close> closure of a prepared request. It is given by its answers:
  the argument is the number of remote calls made before this one.
\<close>

type_synonym 'r query = "nat \<Rightarrow> 'r option \<times> error option"
type_synonym exec_query = "nat \<Rightarrow> error option"

definition called :: "world \<Rightarrow> world" where
  "called w = w\<lparr>calls := Suc (calls w), trace := trace w @ [Called]\<rparr>"

definition time_Sleep :: "Duration \<Rightarrow> world \<Rightarrow> world" where
  "time_Sleep d w = w\<lparr>clock := Sleep d (clock w), trace := trace w @ [Slept d]\<rparr>"

text \<open>\<^verbatim>\<open>c.throttle()\<close>: wait on the limiter when there is one.\<close>

definition throttle :: "world \<Rightarrow> world option" where
  "throttle w =
     (case limiter w of
        None \<Rightarrow> Some w
      | Some rl \<Rightarrow>
          (case Wait rl (clock w) of
             None \<Rightarrow> None
           | Some (rl1, now1) \<Rightarrow>
               Some (w\<lparr>limiter := Some rl1, clock := now1, trace := trace w @ [Admitted]\<rparr>)))"

section \<open>The retry wrappers of the throttled client\<close>

function Client_executeWithRetry_loop ::
  "Client \<Rightarrow> exec_query \<Rightarrow> int \<Rightarrow> world \<Rightarrow> (error option \<times> world) option" where
  "Client_executeWithRetry_loop c query retryCount w =
     (case throttle w of
        None \<Rightarrow> None
      | Some w1 \<Rightarrow>
          (let err = query (calls w1); w2 = called w1
           in if isGoogleapiCode 429 err then
                if retryCount < RetryLimit (Options c) then
                  (let retryCount1 = retryCount + 1;
                       backoffDuration = retryCount1 * Second
                   in Client_executeWithRetry_loop c query retryCount1
                        (time_Sleep backoffDuration w2))
                else
                  Some (Some (ErrorString (''rate limit exceeded after ''
                          @ fmt_d (RetryLimit (Options c)) @ '' retries'')), w2)
              else if err \<noteq> None then Some (err, w2)
              else Some (None, w2)))"
  by pat_completeness auto
termination
  by (relation "measure (\<lambda>(c, query, retryCount, w). nat (RetryLimit (Options c) - retryCount))")
    auto

declare Client_executeWithRetry_loop.simps [simp del]

definition Client_executeWithRetry ::
  "Client \<Rightarrow> exec_query \<Rightarrow> world \<Rightarrow> (error option \<times> world) option" where
  "Client_executeWithRetry c query w = Client_executeWithRetry_loop c query 0 w"

text \<open>
  The eight wrappers that return a payload have the same text, apart from the payload type;
  their loop is written once.
\<close>

function getWithRetry_loop ::
  "Client \<Rightarrow> 'r query \<Rightarrow> int \<Rightarrow> world \<Rightarrow> (('r option \<times> error option) \<times> world) option" where
  "getWithRetry_loop c query retryCount w =
     (case throttle w of
        None \<Rightarrow> None
      | Some w1 \<Rightarrow>
          (case query (calls w1) of (resp, err) \<Rightarrow>
             (let w2 = called w1
              in if isGoogleapiCode 429 err then
                   if retryCount < RetryLimit (Options c) then
                     (let retryCount1 = retryCount + 1;
                          backoffDuration = 20 * Second * retryCount1
                      in getWithRetry_loop c query retryCount1 (time_Sleep backoffDuration w2))
                   else
                     Some ((None, Some (ErrorString (''rate limit exceeded after ''
                             @ fmt_d (RetryLimit (Options c)) @ '' retries''))), w2)
                 else if err \<noteq> None then Some ((None, err), w2)
                 else Some ((resp, None), w2))))"
  by pat_completeness auto
termination
  by (relation "measure (\<lambda>(c, query, retryCount, w). nat (RetryLimit (Options c) - retryCount))")
    auto

declare getWithRetry_loop.simps [simp del]

definition getWorkspaceWithRetry ::
  "Client \<Rightarrow> 'r query \<Rightarrow> world \<Rightarrow> (('r option \<times> error option) \<times> world) option" where
  "getWorkspaceWithRetry c query w = getWithRetry_loop c query 0 w"

definition getWorkspaceListWithRetry ::
  "Client \<Rightarrow> 'r query \<Rightarrow> world \<Rightarrow> (('r option \<times> error option) \<times> world) option" where
  "getWorkspaceListWithRetry c query w = getWithRetry_loop c query 0 w"

definition getTagWithRetry ::
  "Client \<Rightarrow> 'r query \<Rightarrow> world \<Rightarrow> (('r option \<times> error option) \<times> world) option" where
  "getTagWithRetry c query w = getWithRetry_loop c query 0 w"

definition getTagListWithRetry ::
  "Client \<Rightarrow> 'r query \<Rightarrow> world \<Rightarrow> (('r option \<times> error option) \<times> world) option" where
  "getTagListWithRetry c query w = getWithRetry_loop c query 0 w"

definition getVariableWithRetry ::
  "Client \<Rightarrow> 'r query \<Rightarrow> world \<Rightarrow> (('r option \<times> error option) \<times> world) option" where
  "getVariableWithRetry c query w = getWithRetry_loop c query 0 w"

definition getVariableListWithRetry ::
  "Client \<Rightarrow> 'r query \<Rightarrow> world \<Rightarrow> (('r option \<times> error option) \<times> world) option" where
  "getVariableListWithRetry c query w = getWithRetry_loop c query 0 w"

definition getTriggerWithRetry ::
  "Client \<Rightarrow> 'r query \<Rightarrow> world \<Rightarrow> (('r option \<times> error option) \<times> world) option" where
  "getTriggerWithRetry c query w = getWithRetry_loop c query 0 w"

definition getTriggerListWithRetry ::
  "Client \<Rightarrow> 'r query \<Rightarrow> world \<Rightarrow> (('r option \<times> error option) \<times> world) option" where
  "getTriggerListWithRetry c query w = getWithRetry_loop c query 0 w"

section \<open>The operations of the throttled client\<close>

text \<open>
  Each operation prepares a request and hands its \<^verbatim>\<open>Do\<close> closure to a retry wrapper; the
  closure is the argument \<open>call\<close> here. A list response is given by the slice it carries, and
  reading that slice from a nil response is the panic \<open>NilDereference\<close>.
\<close>

datatype 'a returned = Returns 'a | NilDereference

definition CreateWorkspace ::
  "Client \<Rightarrow> 'r query \<Rightarrow> world \<Rightarrow> (('r option \<times> error option) \<times> world) option" where
  "CreateWorkspace c call w = getWorkspaceWithRetry c call w"

definition ListWorkspaces ::
  "Client \<Rightarrow> ('r list) query \<Rightarrow> world
     \<Rightarrow> ((('r list) option \<times> error option) returned \<times> world) option" where
  "ListWorkspaces c call w =
     (case getWorkspaceListWithRetry c call w of
        None \<Rightarrow> None
      | Some ((resp, err), w1) \<Rightarrow>
          Some (if err \<noteq> None then Returns (None, err)
                else (case resp of None \<Rightarrow> NilDereference
                      | Some r \<Rightarrow> Returns (Some r, None)), w1))"

definition Workspace ::
  "Client \<Rightarrow> 'r query \<Rightarrow> world \<Rightarrow> (('r option \<times> error option) \<times> world) option" where
  "Workspace c call w =
     (case getWorkspaceWithRetry c call w of
        None \<Rightarrow> None
      | Some ((ws, err), w1) \<Rightarrow>
          Some (if isGoogleapiCode 404 err then (None, Some ErrNotExist) else (ws, err), w1))"

definition UpdateWorkspaces ::
  "Client \<Rightarrow> 'r query \<Rightarrow> world \<Rightarrow> (('r option \<times> error option) \<times> world) option" where
  "UpdateWorkspaces c call w = getWorkspaceWithRetry c call w"

definition DeleteWorkspace ::
  "Client \<Rightarrow> exec_query \<Rightarrow> world \<Rightarrow> (error option \<times> world) option" where
  "DeleteWorkspace c call w = Client_executeWithRetry c call w"

definition CreateTag ::
  "Client \<Rightarrow> 'r query \<Rightarrow> world \<Rightarrow> (('r option \<times> error option) \<times> world) option" where
  "CreateTag c call w = getTagWithRetry c call w"

definition ListTags ::
  "Client \<Rightarrow> ('r list) query \<Rightarrow> world
     \<Rightarrow> ((('r list) option \<times> error option) returned \<times> world) option" where
  "ListTags c call w =
     (case getTagListWithRetry c call w of
        None \<Rightarrow> None
      | Some ((resp, err), w1) \<Rightarrow>
          Some (if err \<noteq> None then Returns (None, err)
                else (case resp of None \<Rightarrow> NilDereference
                      | Some r \<Rightarrow> Returns (Some r, None)), w1))"

definition Tag ::
  "Client \<Rightarrow> 'r query \<Rightarrow> world \<Rightarrow> (('r option \<times> error option) \<times> world) option" where
  "Tag c call w =
     (case getTagWithRetry c call w of
        None \<Rightarrow> None
      | Some ((tag, err), w1) \<Rightarrow>
          Some (if isGoogleapiCode 404 err then (None, Some ErrNotExist) else (tag, err), w1))"

definition UpdateTag ::
  "Client \<Rightarrow> 'r query \<Rightarrow> world \<Rightarrow> (('r option \<times> error option) \<times> world) option" where
  "UpdateTag c call w = getTagWithRetry c call w"

definition DeleteTag ::
  "Client \<Rightarrow> exec_query \<Rightarrow> world \<Rightarrow> (error option \<times> world) option" where
  "DeleteTag c call w = Client_executeWithRetry c call w"

definition CreateVariable ::
  "Client \<Rightarrow> 'r query \<Rightarrow> world \<Rightarrow> (('r option \<times> error option) \<times> world) option" where
  "CreateVariable c call w = getVariableWithRetry c call w"

definition ListVariables ::
  "Client \<Rightarrow> ('r list) query \<Rightarrow> world
     \<Rightarrow> ((('r list) option \<times> error option) returned \<times> world) option" where
  "ListVariables c call w =
     (case getVariableListWithRetry c call w of
        None \<Rightarrow> None
      | Some ((resp, err), w1) \<Rightarrow>
          Some (if err \<noteq> None then Returns (None, err)
                else (case resp of None \<Rightarrow> NilDereference
                      | Some r \<Rightarrow> Returns (Some r, None)), w1))"

definition Variable ::
  "Client \<Rightarrow> 'r query \<Rightarrow> world \<Rightarrow> (('r option \<times> error option) \<times> world) option" where
  "Variable c call w =
     (case getVariableWithRetry c call w of
        None \<Rightarrow> None
      | Some ((variable, err), w1) \<Rightarrow>
          Some (if isGoogleapiCode 404 err then (None, Some ErrNotExist)
                else (variable, err), w1))"

definition UpdateVariable ::
  "Client \<Rightarrow> 'r query \<Rightarrow> world \<Rightarrow> (('r option \<times> error option) \<times> world) option" where
  "UpdateVariable c call w = getVariableWithRetry c call w"

definition DeleteVariable ::
  "Client \<Rightarrow> exec_query \<Rightarrow> world \<Rightarrow> (error option \<times> world) option" where
  "DeleteVariable c call w = Client_executeWithRetry c call w"

definition CreateTrigger ::
  "Client \<Rightarrow> 'r query \<Rightarrow> world \<Rightarrow> (('r option \<times> error option) \<times> world) option" where
  "CreateTrigger c call w = getTriggerWithRetry c call w"

definition ListTriggers ::
  "Client \<Rightarrow> ('r list) query \<Rightarrow> world
     \<Rightarrow> ((('r list) option \<times> error option) returned \<times> world) option" where
  "ListTriggers c call w =
     (case getTriggerListWithRetry c call w of
        None \<Rightarrow> None
      | Some ((resp, err), w1) \<Rightarrow>
          Some (if err \<noteq> None then Returns (None, err)
                else (case resp of None \<Rightarrow> NilDereference
                      | Some r \<Rightarrow> Returns (Some r, None)), w1))"

definition Trigger ::
  "Client \<Rightarrow> 'r query \<Rightarrow> world \<Rightarrow> (('r option \<times> error option) \<times> world) option" where
  "Trigger c call w =
     (case getTriggerWithRetry c call w of
        None \<Rightarrow> None
      | Some ((trigger, err), w1) \<Rightarrow>
          Some (if isGoogleapiCode 404 err then (None, Some ErrNotExist)
                else (trigger, err), w1))"

definition UpdateTrigger ::
  "Client \<Rightarrow> 'r query \<Rightarrow> world \<Rightarrow> (('r option \<times> error option) \<times> world) option" where
  "UpdateTrigger c call w = getTriggerWithRetry c call w"

definition DeleteTrigger ::
  "Client \<Rightarrow> exec_query \<Rightarrow> world \<Rightarrow> (error option \<times> world) option" where
  "DeleteTrigger c call w = Client_executeWithRetry c call w"

section \<open>The retry wrappers of the client without a limiter\<close>

text \<open>
  \<^verbatim>\<open>internal/api/client.go\<close> has the two wrappers as plain functions of the closure and the
  retry limit. They know no limiter and never wait on one.
\<close>

function executeWithRetry_loop ::
  "exec_query \<Rightarrow> int \<Rightarrow> int \<Rightarrow> world \<Rightarrow> error option \<times> world" where
  "executeWithRetry_loop query retryLimit retryCount w =
     (let err = query (calls w); w1 = called w
      in if isGoogleapiCode 429 err then
           if retryCount < retryLimit then
             (let retryCount1 = retryCount + 1;
                  backoffDuration = retryCount1 * Second
              in executeWithRetry_loop query retryLimit retryCount1
                   (time_Sleep backoffDuration w1))
           else
             (Some (ErrorString (''rate limit exceeded after ''
                @ fmt_d retryLimit @ '' retries'')), w1)
         else if err \<noteq> None then (err, w1)
         else (None, w1))"
  by pat_completeness auto
termination
  by (relation "measure (\<lambda>(query, retryLimit, retryCount, w). nat (retryLimit - retryCount))")
    auto

declare executeWithRetry_loop.simps [simp del]

definition executeWithRetry :: "exec_query \<Rightarrow> int \<Rightarrow> world \<Rightarrow> error option \<times> world" where
  "executeWithRetry query retryLimit w = executeWithRetry_loop query retryLimit 0 w"

function getResponseWithRetry_loop ::
  "'r query \<Rightarrow> int \<Rightarrow> int \<Rightarrow> world \<Rightarrow> ('r option \<times> error option) \<times> world" where
  "getResponseWithRetry_loop query retryLimit retryCount w =
     (case query (calls w) of (resp, err) \<Rightarrow>
        (let w1 = called w
         in if isGoogleapiCode 429 err then
              if retryCount < retryLimit then
                (let retryCount1 = retryCount + 1;
                     backoffDuration = 20 * Second * retryCount1
                 in getResponseWithRetry_loop query retryLimit retryCount1
                      (time_Sleep backoffDuration w1))
              else
                ((None, Some (ErrorString (''Rate limit exceeded after ''
                    @ fmt_d retryLimit @ '' retries''))), w1)
            else if err \<noteq> None then ((None, err), w1)
            else ((resp, None), w1)))"
  by pat_completeness auto
termination
  by (relation "measure (\<lambda>(query, retryLimit, retryCount, w). nat (retryLimit - retryCount))")
    auto

declare getResponseWithRetry_loop.simps [simp del]

definition getResponseWithRetry ::
  "'r query \<Rightarrow> int \<Rightarrow> world \<Rightarrow> ('r option \<times> error option) \<times> world" where
  "getResponseWithRetry query retryLimit w = getResponseWithRetry_loop query retryLimit 0 w"

section \<open>Reading a trace\<close>

text \<open>What a wrapper added to the trace between two states of the surroundings.\<close>

definition new_events :: "world \<Rightarrow> world \<Rightarrow> event list" where
  "new_events w w' = drop (length (trace w)) (trace w')"

fun attempts :: "event list \<Rightarrow> nat" where
  "attempts [] = 0"
| "attempts (Called # es) = Suc (attempts es)"
| "attempts (Admitted # es) = attempts es"
| "attempts (Slept d # es) = attempts es"

fun sleeps :: "event list \<Rightarrow> Duration list" where
  "sleeps [] = []"
| "sleeps (Slept d # es) = d # sleeps es"
| "sleeps (Admitted # es) = sleeps es"
| "sleeps (Called # es) = sleeps es"


text \<open>The first \<open>n\<close> linear backoffs of unit \<open>u\<close>: \<open>u, 2u, \<dots>, nu\<close>.\<close>

definition linear_backoffs :: "Duration \<Rightarrow> nat \<Rightarrow> Duration list" where
  "linear_backoffs u n = map (\<lambda>i. int i * u) [1..<Suc n]"

text \<open>
  A limiter from which \<^verbatim>\<open>Wait\<close> comes back: it refills and it can hold a whole token.
  No limiter at all is fine as well.
\<close>

definition limiter_ok :: "world \<Rightarrow> bool" where
  "limiter_ok w =
     (case limiter w of
        None \<Rightarrow> True
      | Some rl \<Rightarrow> 0 < refillRate rl \<and> 1 \<le> capacity rl)"

text \<open>What \<^verbatim>\<open>throttle\<close> adds to the trace: an admission when there is a limiter.\<close>

definition admission :: "world \<Rightarrow> event list" where
  "admission w = (case limiter w of None \<Rightarrow> [] | Some rl \<Rightarrow> [Admitted])"

text \<open>
  The events of \<open>k\<close> failed attempts in a row, the first of them made with retry count
  \<open>n\<close>: each is an admission (if any), the call, and the backoff of unit \<open>u\<close>.
\<close>

fun retry_events :: "event list \<Rightarrow> Duration \<Rightarrow> nat \<Rightarrow> nat \<Rightarrow> event list" where
  "retry_events adm u n 0 = []"
| "retry_events adm u n (Suc k) =
     adm @ [Called, Slept (int (Suc n) * u)] @ retry_events adm u (Suc n) k"

text \<open>The balance of the bucket is within its bounds, and the bucket refills.\<close>

definition bucket_inv :: "RateLimiter \<Rightarrow> bool" where
  "bucket_inv rl = (0 \<le> tokens rl \<and> tokens rl \<le> capacity rl \<and> 0 < refillRate rl)"

text \<open>What \<^verbatim>\<open>Wait\<close> leaves behind: the same bucket, stamped with the clock.\<close>

definition wait_result :: "RateLimiter \<Rightarrow> Time \<Rightarrow> RateLimiter \<times> Time \<Rightarrow> bool" where
  "wait_result rl now r =
     (refillRate (fst r) = refillRate rl \<and> capacity (fst r) = capacity rl
      \<and> lastRefill (fst r) = snd r \<and> now \<le> snd r)"

text \<open>
  What a payload wrapper hands back for an answer that is not a rate limit: the error alone,
  or the payload alone.
\<close>

definition handed_back :: "'r option \<times> error option \<Rightarrow> 'r option \<times> error option" where
  "handed_back a = (if snd a \<noteq> None then (None, snd a) else (fst a, None))"

text \<open>
  A run of a throttled wrapper that started with retry count \<open>n\<close> and made \<open>k\<close> retries:
  \<open>k + 1\<close> remote calls, the events of \<open>k\<close> failed attempts and of the last attempt, and a
  limiter that is still in order.
\<close>

definition run_of :: "world \<Rightarrow> Duration \<Rightarrow> nat \<Rightarrow> nat \<Rightarrow> world \<Rightarrow> bool" where
  "run_of w u n k w' =
     (calls w' = calls w + k + 1
      \<and> trace w' = trace w @ retry_events (admission w) u n k @ admission w @ [Called]
      \<and> limiter_ok w' \<and> admission w' = admission w)"

text \<open>One remote call and no backoff.\<close>

definition single_attempt :: "world \<Rightarrow> world \<Rightarrow> bool" where
  "single_attempt w w' = (attempts (new_events w w') = 1 \<and> sleeps (new_events w w') = [])"

text \<open>
  The client that \<^verbatim>\<open>NewClientOptionsFromEnv\<close> configures when no variable is set (retry
  limit 10, 10 requests per second, burst 20, throttling on), and the surroundings right
  after \<^verbatim>\<open>NewClient\<close>.
\<close>

definition default_client :: Client where
  "default_client =
     \<lparr>Options = \<lparr>CredentialFile = [], AccountId = [], ContainerId = [], RetryLimit = 10,
                 RateLimit = 10, RateBurst = 20, ThrottleEnabled = True\<rparr>\<rparr>"

definition fresh_world :: "Client \<Rightarrow> Time \<Rightarrow> world" where
  "fresh_world c now =
     \<lparr>limiter = NewClient_rateLimiter (Options c) now, clock = now, calls = 0, trace = []\<rparr>"

section \<open>Lemmas on the token bucket\<close>

lemma min_float64_min: "min_float64 a b = min a b"
  by (simp add: min_float64_def min_def)

lemma Allow_refilled:
  "Allow rl now =
     (if refilled rl now \<ge> 1
      then (True, rl\<lparr>tokens := refilled rl now - 1, lastRefill := now\<rparr>)
      else (False, rl\<lparr>tokens := refilled rl now, lastRefill := now\<rparr>))"
  by (simp add: Allow_def Let_def refilled_def min_float64_min Sub_def)

text \<open>
  C1. \<^verbatim>\<open>Allow\<close> refills to \<open>min(capacity, tokens + elapsed * refillRate)\<close>, stamps
  \<open>lastRefill\<close> with the call time, and then takes one token and answers true when the
  refilled balance is at least 1, and otherwise keeps the refilled balance and answers false.
\<close>

theorem Allow_meets_spec: "Allow rl now = allow_spec rl now"
  by (simp add: Allow_refilled allow_spec_def)

lemma Allow_calls_append:
  "Allow_calls rl (xs @ ys) =
     (case Allow_calls rl xs of (a, r1) \<Rightarrow>
        (case Allow_calls r1 ys of (b, r2) \<Rightarrow> (a @ b, r2)))"
  by (induction xs arbitrary: rl) (auto split: prod.splits)

lemma refilled_same_instant:
  "lastRefill rl = t \<Longrightarrow> tokens rl \<le> capacity rl \<Longrightarrow> refilled rl t = tokens rl"
  by (simp add: refilled_def Seconds_def)

lemma burst_drains:
  "tokens rl = real n \<Longrightarrow> real n \<le> capacity rl \<Longrightarrow> lastRefill rl = t \<Longrightarrow>
   Allow_calls rl (replicate n t) = (replicate n True, rl\<lparr>tokens := 0\<rparr>)"
proof (induction n arbitrary: rl)
  case 0
  then show ?case by simp
next
  case (Suc n)
  let ?rl1 = "rl\<lparr>tokens := real n\<rparr>"
  have r: "refilled rl t = real (Suc n)"
    using Suc.prems by (simp add: refilled_same_instant)
  have a: "Allow rl t = (True, ?rl1)"
    using Suc.prems by (simp add: Allow_refilled r)
  have "Allow_calls ?rl1 (replicate n t) = (replicate n True, ?rl1\<lparr>tokens := 0\<rparr>)"
    using Suc.prems by (intro Suc.IH) simp_all
  then show ?case by (simp add: a)
qed

lemma empty_bucket_refuses:
  "tokens rl = 0 \<Longrightarrow> 0 \<le> capacity rl \<Longrightarrow> lastRefill rl = t \<Longrightarrow> fst (Allow rl t) = False"
  by (simp add: Allow_refilled refilled_same_instant)

text \<open>
  C7. A limiter fresh from \<^verbatim>\<open>NewRateLimiter\<close> with burst \<open>c \<ge> 1\<close>, asked \<open>c + 1\<close> times at
  the instant of its construction, answers true to the first \<open>c\<close> calls and false to the
  next one.
\<close>

theorem full_bucket_admits_exactly_capacity:
  assumes "1 \<le> c"
  shows "fst (Allow_calls (NewRateLimiter rate c t0) (replicate (nat c + 1) t0))
           = replicate (nat c) True @ [False]"
proof -
  let ?rl = "NewRateLimiter rate c t0"
  have t: "tokens ?rl = real (nat c)" "real (nat c) \<le> capacity ?rl" "lastRefill ?rl = t0"
    using assms by (simp_all add: NewRateLimiter_def)
  have d: "Allow_calls ?rl (replicate (nat c) t0) = (replicate (nat c) True, ?rl\<lparr>tokens := 0\<rparr>)"
    by (rule burst_drains [OF t])
  have e: "fst (Allow (?rl\<lparr>tokens := 0\<rparr>) t0) = False"
    using assms by (intro empty_bucket_refuses) (simp_all add: NewRateLimiter_def)
  have "replicate (nat c + 1) t0 = replicate (nat c) t0 @ [t0]"
    by (simp add: replicate_append_same)
  then show ?thesis
    using d e by (cases "Allow (?rl\<lparr>tokens := 0\<rparr>) t0") (simp add: Allow_calls_append)
qed

theorem full_bucket_admits_exactly_capacity_witness:
  "(1::int) \<le> 3 \<and>
   fst (Allow_calls (NewRateLimiter 10 3 0) (replicate (nat 3 + 1) 0))
     = replicate (nat 3) True @ [False]"
  using full_bucket_admits_exactly_capacity [of 3 10 0] by simp

lemma sustained_step:
  assumes "1 \<le> capacity rl" "0 < refillRate rl" "1 \<le> refilled rl t"
    and "spaced (refillRate rl) (t # ts)"
  shows "fst (Allow_calls rl (t # ts)) = replicate (Suc (length ts)) True"
  using assms
proof (induction ts arbitrary: rl t)
  case Nil
  then show ?case by (simp add: Allow_refilled)
next
  case (Cons u ts)
  let ?rl1 = "rl\<lparr>tokens := refilled rl t - 1, lastRefill := t\<rparr>"
  have a: "Allow rl t = (True, ?rl1)"
    using Cons.prems by (simp add: Allow_refilled)
  have s: "1 / refillRate rl \<le> Seconds (u - t)" and sp: "spaced (refillRate rl) (u # ts)"
    using Cons.prems by (simp_all add: Sub_def)
  have "1 \<le> Seconds (u - t) * refillRate rl"
    using s Cons.prems(2) by (simp add: pos_divide_le_eq)
  then have "1 \<le> refilled ?rl1 u"
    using Cons.prems by (simp add: refilled_def)
  then have "fst (Allow_calls ?rl1 (u # ts)) = replicate (Suc (length ts)) True"
    using Cons.prems sp by (intro Cons.IH) simp_all
  then show ?case
    by (simp add: a split: prod.splits)
qed

text \<open>
  In exact arithmetic, calls of \<^verbatim>\<open>Allow\<close> on a full bucket with capacity at least 1 whose
  clock readings lie at least \<open>1 / refillRate\<close> seconds apart are all answered true.
\<close>

lemma sustainable_rate_in_exact_arithmetic:
  assumes "tokens rl = capacity rl" "1 \<le> capacity rl" "0 < refillRate rl"
    and "lastRefill rl \<le> t" "spaced (refillRate rl) (t # ts)"
  shows "fst (Allow_calls rl (t # ts)) = replicate (Suc (length ts)) True"
proof -
  have "0 \<le> Seconds (t - lastRefill rl) * refillRate rl"
    using assms by (simp add: Seconds_def)
  then have "1 \<le> refilled rl t"
    using assms by (simp add: refilled_def)
  then show ?thesis
    using assms by (intro sustained_step)
qed

subsection \<open>Rounding\<close>

lemma round_to_even_near:
  assumes "\<bar>y - real_of_int m\<bar> < 1 / 2"
  shows "round_to_even y = m"
proof (cases "real_of_int m \<le> y")
  case True
  then have "\<lfloor>y\<rfloor> = m" using assms by (intro floor_unique) auto
  then show ?thesis using assms True by (simp add: round_to_even_def Let_def)
next
  case False
  then have f: "\<lfloor>y\<rfloor> = m - 1" using assms by (intro floor_unique) auto
  have "1 / 2 < y - real_of_int (m - 1)" using assms False by auto
  then show ?thesis using f by (simp add: round_to_even_def Let_def)
qed

lemma float64_nearest:
  assumes "0 < x" "binade x = e" "\<bar>x / ulp e - real_of_int m\<bar> < 1 / 2"
  shows "float64 x = real_of_int m * ulp e"
  using assms round_to_even_near [OF assms(3)] by (simp add: float64_def Let_def)

lemma float64_0: "float64 0 = 0"
  by (simp add: float64_def)

lemma float64_1: "float64 1 = 1"
  using float64_nearest [of 1 0 4503599627370496]
  by (simp add: binade_def ulp_def bit_length.simps)

lemma float64_nsec: "float64 469000000 = 469000000"
  using float64_nearest [of 469000000 28 7868514304000000]
  by (simp add: binade_def ulp_def bit_length.simps)

lemma float64_0469: "float64 (469 / 1000) = 4224376450473525 / 9007199254740992"
  using float64_nearest [of "469 / 1000" "-2" 8448752900947050]
  by (simp add: binade_def ulp_def bit_length.simps)

lemma float64_elapsed:
  "float64 (4224376450473525 / 9007199254740992) = 4224376450473525 / 9007199254740992"
  using float64_nearest [of "4224376450473525 / 9007199254740992" "-2" 8448752900947050]
  by (simp add: binade_def ulp_def bit_length.simps)

lemma float64_product:
  "float64 (20282409603651669242237278272225 / 20282409603651670423947251286016)
     = 9007199254740991 / 9007199254740992"
  using float64_nearest
    [of "20282409603651669242237278272225 / 20282409603651670423947251286016" "-1"
        9007199254740991]
  by (simp add: binade_def ulp_def bit_length.simps)

lemma float64_below_1:
  "float64 (9007199254740991 / 9007199254740992) = 9007199254740991 / 9007199254740992"
  using float64_nearest [of "9007199254740991 / 9007199254740992" "-1" 9007199254740991]
  by (simp add: binade_def ulp_def bit_length.simps)

lemma float64_below_2:
  "float64 (9007199254740991 / 4503599627370496) = 9007199254740991 / 4503599627370496"
  using float64_nearest [of "9007199254740991 / 4503599627370496" 0 9007199254740991]
  by (simp add: binade_def ulp_def bit_length.simps)

lemma float64_rate:
  "float64 (1000 / 469) = 4801278920437629 / 2251799813685248"
  using float64_nearest [of "1000 / 469" 1 4801278920437629]
  by (simp add: binade_def ulp_def bit_length.simps)


lemmas float64_values = float64_0 float64_1 float64_nsec float64_0469 float64_elapsed
  float64_product float64_below_1 float64_below_2 float64_rate

lemma Seconds_float64_0: "Seconds_float64 0 = 0"
  by (simp add: Seconds_float64_def float64_0)

lemma Seconds_float64_469ms:
  "Seconds_float64 469000000 = 4224376450473525 / 9007199254740992"
  by (simp add: Seconds_float64_def Second_def float64_values)

text \<open>
  C8 fails on the code by rounding. Take the rate \<open>2.1321961620469083\<close>, the \<^verbatim>\<open>float64\<close>
  next to \<open>1000 / 469\<close> and a little above it, a burst of 1, and calls at 0 ms, 469 ms and
  938 ms. The bucket is full, and the calls are at least \<open>1 / refillRate\<close> seconds apart.
  Yet the product of the elapsed 0.469 s and the rate rounds to \<open>1 - 2 ^ -53\<close>, and the
  second call is answered false.
\<close>

theorem rounding_throttles_the_sustainable_rate:
  "tokens (NewRateLimiter (float64 (1000 / 469)) 1 0)
     = capacity (NewRateLimiter (float64 (1000 / 469)) 1 0)
   \<and> 1 \<le> capacity (NewRateLimiter (float64 (1000 / 469)) 1 0)
   \<and> 0 < refillRate (NewRateLimiter (float64 (1000 / 469)) 1 0)
   \<and> lastRefill (NewRateLimiter (float64 (1000 / 469)) 1 0) \<le> 0
   \<and> spaced (refillRate (NewRateLimiter (float64 (1000 / 469)) 1 0))
        [0, 469000000, 938000000]
   \<and> fst (Allow_float64_calls (NewRateLimiter (float64 (1000 / 469)) 1 0)
        [0, 469000000, 938000000]) = [True, False, True]"
  by (simp add: NewRateLimiter_def Allow_float64_def Let_def Sub_def
      Seconds_float64_0 Seconds_float64_469ms Seconds_def min_float64_def float64_values)

lemma waitTime_bounds: "10000000 \<le> waitTime rl \<and> waitTime rl \<le> 1000000000"
  by (simp add: waitTime_def Let_def Millisecond_def Second_def)

lemma Sleep_waitTime: "Sleep (waitTime rl) now = now + waitTime rl"
  using waitTime_bounds [of rl] by (simp add: Sleep_def)

lemma Allow_inv:
  assumes "bucket_inv rl" "lastRefill rl \<le> now"
  shows "bucket_inv (snd (Allow rl now)) \<and> lastRefill (snd (Allow rl now)) = now"
proof -
  have "0 \<le> Seconds (now - lastRefill rl) * refillRate rl"
    using assms by (simp add: bucket_inv_def Seconds_def)
  then have "0 \<le> refilled rl now" "refilled rl now \<le> capacity rl"
    using assms by (simp_all add: refilled_def bucket_inv_def)
  then show ?thesis
    using assms by (simp add: Allow_refilled bucket_inv_def)
qed

lemma Wait_inv_aux:
  assumes "Wait rl0 now0 = Some r0"
  shows "bucket_inv rl0 \<longrightarrow> lastRefill rl0 \<le> now0 \<longrightarrow>
         bucket_inv (fst r0) \<and> lastRefill (fst r0) = snd r0"
proof (rule Wait.raw_induct
    [where P = "\<lambda>rl now r. bucket_inv rl \<longrightarrow> lastRefill rl \<le> now \<longrightarrow>
                  bucket_inv (fst r) \<and> lastRefill (fst r) = snd r", OF _ assms])
  fix wait rl now r
  assume IH: "\<And>rl now r. wait rl now = Some r \<Longrightarrow>
      bucket_inv rl \<longrightarrow> lastRefill rl \<le> now \<longrightarrow> bucket_inv (fst r) \<and> lastRefill (fst r) = snd r"
    and body: "(case Allow rl now of (ok, rl1) \<Rightarrow>
        if ok then Some (rl1, now) else wait rl1 (Sleep (waitTime rl1) now)) = Some r"
  obtain ok rl1 where a: "Allow rl now = (ok, rl1)" by (cases "Allow rl now")
  show "bucket_inv rl \<longrightarrow> lastRefill rl \<le> now \<longrightarrow>
         bucket_inv (fst r) \<and> lastRefill (fst r) = snd r"
  proof (intro impI)
    assume p: "bucket_inv rl" "lastRefill rl \<le> now"
    have i: "bucket_inv rl1" "lastRefill rl1 = now"
      using Allow_inv [OF p] a by simp_all
    show "bucket_inv (fst r) \<and> lastRefill (fst r) = snd r"
    proof (cases ok)
      case True
      then show ?thesis using body a i by auto
    next
      case False
      then have "wait rl1 (Sleep (waitTime rl1) now) = Some r"
        using body a by simp
      moreover have "lastRefill rl1 \<le> Sleep (waitTime rl1) now"
        using i waitTime_bounds [of rl1] by (simp add: Sleep_waitTime)
      ultimately show ?thesis using IH i by blast
    qed
  qed
qed

lemma Wait_inv:
  "Wait rl now = Some (rl', now') \<Longrightarrow> bucket_inv rl \<Longrightarrow> lastRefill rl \<le> now \<Longrightarrow>
   bucket_inv rl' \<and> lastRefill rl' = now'"
  using Wait_inv_aux [of rl now "(rl', now')"] by simp

lemma run_calls_inv:
  "run_calls (rl, now) cs = Some (rl', now') \<Longrightarrow> bucket_inv rl \<Longrightarrow> lastRefill rl \<le> now \<Longrightarrow>
   bucket_inv rl'"
proof (induction cs arbitrary: rl now)
  case Nil
  then show ?case by simp
next
  case (Cons c cs)
  show ?case
  proof (cases c)
    case (DoAllow d)
    let ?t = "now + int d"
    have "lastRefill rl \<le> ?t" using Cons.prems by simp
    then have i: "bucket_inv (snd (Allow rl ?t))" "lastRefill (snd (Allow rl ?t)) \<le> ?t"
      using Allow_inv [of rl ?t] Cons.prems by simp_all
    have "run_calls (snd (Allow rl ?t), ?t) cs = Some (rl', now')"
      using Cons.prems DoAllow by simp
    then show ?thesis using Cons.IH i by blast
  next
    case (DoWait d)
    let ?t = "now + int d"
    obtain rl1 t1 where w: "Wait rl ?t = Some (rl1, t1)"
      and r: "run_calls (rl1, t1) cs = Some (rl', now')"
      using Cons.prems DoWait by (auto split: option.splits)
    have "lastRefill rl \<le> ?t" using Cons.prems by simp
    then have "bucket_inv rl1" "lastRefill rl1 \<le> t1"
      using Wait_inv [OF w] Cons.prems by simp_all
    then show ?thesis using Cons.IH r by blast
  qed
qed

text \<open>
  C9. Whatever calls of \<^verbatim>\<open>Allow\<close> and \<^verbatim>\<open>Wait\<close> a limiter built by \<^verbatim>\<open>NewRateLimiter\<close>
  (burst at least 0, positive rate) has served, at whatever times of the monotonic clock,
  its balance lies between 0 and its capacity.
\<close>

theorem tokens_within_bounds:
  assumes "0 \<le> burst" "0 < rate"
    and "run_calls (NewRateLimiter rate burst t0, t0) cs = Some (rl, t)"
  shows "0 \<le> tokens rl \<and> tokens rl \<le> capacity rl"
proof -
  have "bucket_inv (NewRateLimiter rate burst t0)"
    using assms by (simp add: bucket_inv_def NewRateLimiter_def)
  moreover have "lastRefill (NewRateLimiter rate burst t0) \<le> t0"
    by (simp add: NewRateLimiter_def)
  ultimately have "bucket_inv rl"
    using run_calls_inv assms(3) by blast
  then show ?thesis by (simp add: bucket_inv_def)
qed

theorem tokens_within_bounds_witness:
  "(0::int) \<le> 2 \<and> (0::real) < 10
   \<and> run_calls (NewRateLimiter 10 2 0, 0) [DoAllow 0, DoAllow 0, DoWait 0]
       = Some (\<lparr>tokens = 0, capacity = 2, refillRate = 10, lastRefill = 100000000\<rparr>, 100000000)
   \<and> 0 \<le> tokens \<lparr>tokens = 0, capacity = 2, refillRate = 10, lastRefill = 100000000\<rparr>
   \<and> tokens \<lparr>tokens = 0, capacity = 2, refillRate = 10, lastRefill = 100000000\<rparr>
       \<le> capacity \<lparr>tokens = 0, capacity = 2, refillRate = 10, lastRefill = 100000000\<rparr>"
proof -
  have r: "run_calls (NewRateLimiter 10 2 0, 0) [DoAllow 0, DoAllow 0, DoWait 0]
       = Some (\<lparr>tokens = 0, capacity = 2, refillRate = 10, lastRefill = 100000000\<rparr>, 100000000)"
    apply (simp add: Allow_refilled refilled_def NewRateLimiter_def Seconds_def)
    apply (subst Wait.simps)
    apply (simp add: Allow_refilled refilled_def Seconds_def)
    apply (subst Wait.simps)
    apply (simp add: Allow_refilled refilled_def Seconds_def waitTime_def truncate_float64_def
        int64_def Millisecond_def Second_def Sleep_def)
    done
  show ?thesis
    using tokens_within_bounds [OF _ _ r] r by simp
qed

lemma waitTime_update [simp]:
  "waitTime (rl\<lparr>tokens := a\<rparr>) = waitTime rl"
  "waitTime (rl\<lparr>lastRefill := b\<rparr>) = waitTime rl"
  by (simp_all add: waitTime_def)

lemma Wait_admits_now:
  "1 \<le> refilled rl now \<Longrightarrow>
   Wait rl now = Some (rl\<lparr>tokens := refilled rl now - 1, lastRefill := now\<rparr>, now)"
  by (subst Wait.simps) (simp add: Allow_refilled)

lemma Wait_polls_again:
  "\<not> 1 \<le> refilled rl now \<Longrightarrow>
   Wait rl now = Wait (rl\<lparr>tokens := refilled rl now, lastRefill := now\<rparr>) (now + waitTime rl)"
proof -
  assume a: "\<not> 1 \<le> refilled rl now"
  have w: "waitTime (rl\<lparr>tokens := refilled rl now, lastRefill := now\<rparr>) = waitTime rl"
    by (simp add: waitTime_def)
  show ?thesis
    by (subst Wait.simps) (simp add: Allow_refilled a Sleep_waitTime w)
qed

lemma Wait_returns_aux:
  assumes "0 < refillRate rl" "1 \<le> capacity rl"
    and "1 - (tokens rl + Seconds (now - lastRefill rl) * refillRate rl)
           \<le> real n * (Seconds (waitTime rl) * refillRate rl)"
  shows "\<exists>r. Wait rl now = Some r \<and> wait_result rl now r"
  using assms
proof (induction n arbitrary: rl now)
  case 0
  then have "1 \<le> refilled rl now" by (simp add: refilled_def)
  then show ?case by (simp add: Wait_admits_now wait_result_def)
next
  case (Suc n)
  show ?case
  proof (cases "1 \<le> refilled rl now")
    case True
    then show ?thesis by (simp add: Wait_admits_now wait_result_def)
  next
    case False
    let ?x = "tokens rl + Seconds (now - lastRefill rl) * refillRate rl"
    let ?rl1 = "rl\<lparr>tokens := refilled rl now, lastRefill := now\<rparr>"
    let ?t1 = "now + waitTime rl"
    have x: "refilled rl now = ?x"
      using False Suc.prems(2) by (simp add: refilled_def min_def split: if_splits)
    have w: "waitTime ?rl1 = waitTime rl" by (simp add: waitTime_def)
    have "1 - (?x + Seconds (waitTime rl) * refillRate rl)
            \<le> real n * (Seconds (waitTime rl) * refillRate rl)"
      using Suc.prems(3) by (simp add: algebra_simps)
    then have "1 - (tokens ?rl1 + Seconds (?t1 - lastRefill ?rl1) * refillRate ?rl1)
                 \<le> real n * (Seconds (waitTime ?rl1) * refillRate ?rl1)"
      by (simp add: x)
    then obtain r where r: "Wait ?rl1 ?t1 = Some r" "wait_result ?rl1 ?t1 r"
      using Suc.IH [of ?rl1 ?t1] Suc.prems(1,2) by auto
    have "now \<le> ?t1" using waitTime_bounds [of rl] by simp
    then have "wait_result rl now r" using r(2) by (simp add: wait_result_def)
    then show ?thesis using r(1) by (simp add: Wait_polls_again [OF False])
  qed
qed

lemma Wait_returns:
  assumes "0 < refillRate rl" "1 \<le> capacity rl"
  shows "\<exists>r. Wait rl now = Some r \<and> wait_result rl now r"
proof -
  have "0 < Seconds (waitTime rl) * refillRate rl"
    using assms(1) waitTime_bounds [of rl] by (simp add: Seconds_def)
  then obtain n where
    "1 - (tokens rl + Seconds (now - lastRefill rl) * refillRate rl)
       \<le> real n * (Seconds (waitTime rl) * refillRate rl)"
    using ex_less_of_nat_mult less_eq_real_def by blast
  then show ?thesis using Wait_returns_aux [OF assms] by blast
qed

section \<open>Lemmas on the retry wrappers\<close>

lemma throttle_returns:
  assumes "limiter_ok w"
  shows "\<exists>w1. throttle w = Some w1 \<and> calls w1 = calls w
           \<and> trace w1 = trace w @ admission w \<and> limiter_ok w1 \<and> admission w1 = admission w"
proof (cases "limiter w")
  case None
  then show ?thesis using assms by (simp add: throttle_def admission_def)
next
  case (Some rl)
  then have "0 < refillRate rl" "1 \<le> capacity rl"
    using assms by (simp_all add: limiter_ok_def)
  then obtain r where r: "Wait rl (clock w) = Some r" "wait_result rl (clock w) r"
    using Wait_returns by blast
  obtain rl1 t1 where p: "r = (rl1, t1)" by (cases r)
  show ?thesis
    using Some r p \<open>0 < refillRate rl\<close> \<open>1 \<le> capacity rl\<close>
    by (simp add: throttle_def admission_def limiter_ok_def wait_result_def)
qed

lemma called_simps [simp]:
  "calls (called w) = Suc (calls w)" "trace (called w) = trace w @ [Called]"
  "limiter (called w) = limiter w" "clock (called w) = clock w"
  by (simp_all add: called_def)

lemma time_Sleep_simps [simp]:
  "calls (time_Sleep d w) = calls w" "trace (time_Sleep d w) = trace w @ [Slept d]"
  "limiter (time_Sleep d w) = limiter w"
  by (simp_all add: time_Sleep_def)

lemma limiter_ok_cong: "limiter w' = limiter w \<Longrightarrow> limiter_ok w' = limiter_ok w"
  by (simp add: limiter_ok_def)

lemma admission_cong: "limiter w' = limiter w \<Longrightarrow> admission w' = admission w"
  by (simp add: admission_def)

lemma exec_loop_retries:
  assumes "throttle w = Some w1" "isGoogleapiCode 429 (query (calls w1))"
    "retryCount < RetryLimit (Options c)"
  shows "Client_executeWithRetry_loop c query retryCount w =
         Client_executeWithRetry_loop c query (retryCount + 1)
           (time_Sleep ((retryCount + 1) * Second) (called w1))"
  using assms by (subst Client_executeWithRetry_loop.simps) (simp add: Let_def)

lemma exec_loop_exhausted:
  assumes "throttle w = Some w1" "isGoogleapiCode 429 (query (calls w1))"
    "\<not> retryCount < RetryLimit (Options c)"
  shows "Client_executeWithRetry_loop c query retryCount w =
         Some (Some (ErrorString (''rate limit exceeded after ''
                 @ fmt_d (RetryLimit (Options c)) @ '' retries'')), called w1)"
  using assms by (subst Client_executeWithRetry_loop.simps) (simp add: Let_def)

lemma exec_loop_returns:
  assumes "throttle w = Some w1" "\<not> isGoogleapiCode 429 (query (calls w1))"
  shows "Client_executeWithRetry_loop c query retryCount w = Some (query (calls w1), called w1)"
  using assms by (subst Client_executeWithRetry_loop.simps) (auto simp add: Let_def)

lemma run_of_step:
  assumes "calls w1 = calls w" "trace w1 = trace w @ admission w" "admission w1 = admission w"
    and "run_of (time_Sleep (int (Suc n) * u) (called w1)) u (Suc n) k w'"
  shows "run_of w u n (Suc k) w'"
  using assms admission_cong [of "time_Sleep (int (Suc n) * u) (called w1)" w1]
  by (simp add: run_of_def)

lemma run_of_last:
  assumes "calls w1 = calls w" "trace w1 = trace w @ admission w" "admission w1 = admission w"
    "limiter_ok w1"
  shows "run_of w u n 0 (called w1)"
  using assms admission_cong [of "called w1" w1] limiter_ok_cong [of "called w1" w1]
  by (simp add: run_of_def)

lemma exec_loop_until_other:
  assumes "limiter_ok w" "\<forall>i<k. isGoogleapiCode 429 (query (calls w + i))"
    "\<not> isGoogleapiCode 429 (query (calls w + k))" "k \<le> nat (RetryLimit (Options c) - int n)"
  shows "\<exists>w'. Client_executeWithRetry_loop c query (int n) w = Some (query (calls w + k), w')
           \<and> run_of w Second n k w'"
  using assms
proof (induction k arbitrary: n w)
  case 0
  obtain w1 where t: "throttle w = Some w1" "calls w1 = calls w"
    "trace w1 = trace w @ admission w" "limiter_ok w1" "admission w1 = admission w"
    using throttle_returns [OF "0.prems"(1)] by blast
  have "Client_executeWithRetry_loop c query (int n) w = Some (query (calls w), called w1)"
    using exec_loop_returns [where query = query, OF t(1)] "0.prems"(3) t(2) by simp
  then show ?case using run_of_last [OF t(2,3,5,4)] by simp
next
  case (Suc k)
  obtain w1 where t: "throttle w = Some w1" "calls w1 = calls w"
    "trace w1 = trace w @ admission w" "limiter_ok w1" "admission w1 = admission w"
    using throttle_returns [OF Suc.prems(1)] by blast
  let ?w3 = "time_Sleep (int (Suc n) * Second) (called w1)"
  have f: "isGoogleapiCode 429 (query (calls w1))"
    using Suc.prems(2) t(2) by force
  have l: "int n < RetryLimit (Options c)" using Suc.prems(4) by simp
  have e: "Client_executeWithRetry_loop c query (int n) w =
           Client_executeWithRetry_loop c query (int (Suc n)) ?w3"
    using exec_loop_retries [where query = query, OF t(1) f l] by (simp add: add.commute)
  have c3: "calls ?w3 = Suc (calls w)" using t(2) by simp
  have "limiter_ok ?w3" using t(4) limiter_ok_cong [of ?w3 w1] by simp
  moreover have "\<forall>i<k. isGoogleapiCode 429 (query (calls ?w3 + i))"
    using Suc.prems(2) c3 by auto
  moreover have "\<not> isGoogleapiCode 429 (query (calls ?w3 + k))"
    using Suc.prems(3) c3 by simp
  moreover have "k \<le> nat (RetryLimit (Options c) - int (Suc n))"
    using Suc.prems(4) by simp
  ultimately obtain w' where
    r: "Client_executeWithRetry_loop c query (int (Suc n)) ?w3 = Some (query (calls ?w3 + k), w')"
      "run_of ?w3 Second (Suc n) k w'"
    using Suc.IH [of ?w3 "Suc n"] by blast
  have "run_of w Second n (Suc k) w'"
    using run_of_step [OF t(2,3,5) r(2)] .
  then show ?case using e r(1) c3 by simp
qed

lemma exec_loop_until_exhausted:
  assumes "limiter_ok w" "\<forall>i\<le>k. isGoogleapiCode 429 (query (calls w + i))"
    "k = nat (RetryLimit (Options c) - int n)"
  shows "\<exists>w'. Client_executeWithRetry_loop c query (int n) w =
             Some (Some (ErrorString (''rate limit exceeded after ''
                 @ fmt_d (RetryLimit (Options c)) @ '' retries'')), w')
           \<and> run_of w Second n k w'"
  using assms
proof (induction k arbitrary: n w)
  case 0
  obtain w1 where t: "throttle w = Some w1" "calls w1 = calls w"
    "trace w1 = trace w @ admission w" "limiter_ok w1" "admission w1 = admission w"
    using throttle_returns [OF "0.prems"(1)] by blast
  have f: "isGoogleapiCode 429 (query (calls w1))"
    using "0.prems"(2) t(2) by simp
  have l: "\<not> int n < RetryLimit (Options c)" using "0.prems"(3) by simp
  show ?case
    using exec_loop_exhausted [where query = query, OF t(1) f l] run_of_last [OF t(2,3,5,4)] by simp
next
  case (Suc k)
  obtain w1 where t: "throttle w = Some w1" "calls w1 = calls w"
    "trace w1 = trace w @ admission w" "limiter_ok w1" "admission w1 = admission w"
    using throttle_returns [OF Suc.prems(1)] by blast
  let ?w3 = "time_Sleep (int (Suc n) * Second) (called w1)"
  have f: "isGoogleapiCode 429 (query (calls w1))"
    using Suc.prems(2) t(2) by force
  have l: "int n < RetryLimit (Options c)" using Suc.prems(3) by simp
  have e: "Client_executeWithRetry_loop c query (int n) w =
           Client_executeWithRetry_loop c query (int (Suc n)) ?w3"
    using exec_loop_retries [where query = query, OF t(1) f l] by (simp add: add.commute)
  have c3: "calls ?w3 = Suc (calls w)" using t(2) by simp
  have "limiter_ok ?w3" using t(4) limiter_ok_cong [of ?w3 w1] by simp
  moreover have "\<forall>i\<le>k. isGoogleapiCode 429 (query (calls ?w3 + i))"
    using Suc.prems(2) c3 by auto
  moreover have "k = nat (RetryLimit (Options c) - int (Suc n))"
    using Suc.prems(3) by simp
  ultimately obtain w' where
    r: "Client_executeWithRetry_loop c query (int (Suc n)) ?w3 =
          Some (Some (ErrorString (''rate limit exceeded after ''
                 @ fmt_d (RetryLimit (Options c)) @ '' retries'')), w')"
      "run_of ?w3 Second (Suc n) k w'"
    using Suc.IH [of ?w3 "Suc n"] by blast
  have "run_of w Second n (Suc k) w'"
    using run_of_step [OF t(2,3,5) r(2)] .
  then show ?case using e r(1) by simp
qed

lemma get_loop_retries:
  assumes "throttle w = Some w1" "isGoogleapiCode 429 (snd (query (calls w1)))"
    "retryCount < RetryLimit (Options c)"
  shows "getWithRetry_loop c query retryCount w =
         getWithRetry_loop c query (retryCount + 1)
           (time_Sleep (20 * Second * (retryCount + 1)) (called w1))"
proof -
  obtain resp err where "query (calls w1) = (resp, err)" by (cases "query (calls w1)")
  then show ?thesis
    using assms by (subst getWithRetry_loop.simps) (simp add: Let_def)
qed

lemma get_loop_exhausted:
  assumes "throttle w = Some w1" "isGoogleapiCode 429 (snd (query (calls w1)))"
    "\<not> retryCount < RetryLimit (Options c)"
  shows "getWithRetry_loop c query retryCount w =
         Some ((None, Some (ErrorString (''rate limit exceeded after ''
                 @ fmt_d (RetryLimit (Options c)) @ '' retries''))), called w1)"
proof -
  obtain resp err where "query (calls w1) = (resp, err)" by (cases "query (calls w1)")
  then show ?thesis
    using assms by (subst getWithRetry_loop.simps) (simp add: Let_def)
qed

lemma get_loop_returns:
  assumes "throttle w = Some w1" "\<not> isGoogleapiCode 429 (snd (query (calls w1)))"
  shows "getWithRetry_loop c query retryCount w =
         Some (handed_back (query (calls w1)), called w1)"
proof -
  obtain resp err where "query (calls w1) = (resp, err)" by (cases "query (calls w1)")
  then show ?thesis
    using assms by (subst getWithRetry_loop.simps) (auto simp add: Let_def handed_back_def)
qed

lemma get_loop_until_other:
  assumes "limiter_ok w" "\<forall>i<k. isGoogleapiCode 429 (snd (query (calls w + i)))"
    "\<not> isGoogleapiCode 429 (snd (query (calls w + k)))"
    "k \<le> nat (RetryLimit (Options c) - int n)"
  shows "\<exists>w'. getWithRetry_loop c query (int n) w
                 = Some (handed_back (query (calls w + k)), w')
           \<and> run_of w (20 * Second) n k w'"
  using assms
proof (induction k arbitrary: n w)
  case 0
  obtain w1 where t: "throttle w = Some w1" "calls w1 = calls w"
    "trace w1 = trace w @ admission w" "limiter_ok w1" "admission w1 = admission w"
    using throttle_returns [OF "0.prems"(1)] by blast
  have "getWithRetry_loop c query (int n) w = Some (handed_back (query (calls w)), called w1)"
    using get_loop_returns [where query = query, OF t(1)] "0.prems"(3) t(2) by simp
  then show ?case using run_of_last [OF t(2,3,5,4)] by simp
next
  case (Suc k)
  obtain w1 where t: "throttle w = Some w1" "calls w1 = calls w"
    "trace w1 = trace w @ admission w" "limiter_ok w1" "admission w1 = admission w"
    using throttle_returns [OF Suc.prems(1)] by blast
  let ?w3 = "time_Sleep (int (Suc n) * (20 * Second)) (called w1)"
  have f: "isGoogleapiCode 429 (snd (query (calls w1)))"
    using Suc.prems(2) t(2) by force
  have l: "int n < RetryLimit (Options c)" using Suc.prems(4) by simp
  have e: "getWithRetry_loop c query (int n) w = getWithRetry_loop c query (int (Suc n)) ?w3"
    using get_loop_retries [where query = query, OF t(1) f l] by (simp add: ac_simps)
  have c3: "calls ?w3 = Suc (calls w)" using t(2) by simp
  have "limiter_ok ?w3" using t(4) limiter_ok_cong [of ?w3 w1] by simp
  moreover have "\<forall>i<k. isGoogleapiCode 429 (snd (query (calls ?w3 + i)))"
    using Suc.prems(2) c3 by auto
  moreover have "\<not> isGoogleapiCode 429 (snd (query (calls ?w3 + k)))"
    using Suc.prems(3) c3 by simp
  moreover have "k \<le> nat (RetryLimit (Options c) - int (Suc n))"
    using Suc.prems(4) by simp
  ultimately obtain w' where
    r: "getWithRetry_loop c query (int (Suc n)) ?w3
          = Some (handed_back (query (calls ?w3 + k)), w')"
      "run_of ?w3 (20 * Second) (Suc n) k w'"
    using Suc.IH [of ?w3 "Suc n"] by blast
  have "run_of w (20 * Second) n (Suc k) w'"
    using run_of_step [OF t(2,3,5) r(2)] .
  then show ?case using e r(1) c3 by simp
qed

lemma get_loop_until_exhausted:
  assumes "limiter_ok w" "\<forall>i\<le>k. isGoogleapiCode 429 (snd (query (calls w + i)))"
    "k = nat (RetryLimit (Options c) - int n)"
  shows "\<exists>w'. getWithRetry_loop c query (int n) w =
             Some ((None, Some (ErrorString (''rate limit exceeded after ''
                 @ fmt_d (RetryLimit (Options c)) @ '' retries''))), w')
           \<and> run_of w (20 * Second) n k w'"
  using assms
proof (induction k arbitrary: n w)
  case 0
  obtain w1 where t: "throttle w = Some w1" "calls w1 = calls w"
    "trace w1 = trace w @ admission w" "limiter_ok w1" "admission w1 = admission w"
    using throttle_returns [OF "0.prems"(1)] by blast
  have f: "isGoogleapiCode 429 (snd (query (calls w1)))"
    using "0.prems"(2) t(2) by simp
  have l: "\<not> int n < RetryLimit (Options c)" using "0.prems"(3) by simp
  show ?case
    using get_loop_exhausted [where query = query, OF t(1) f l] run_of_last [OF t(2,3,5,4)]
    by simp
next
  case (Suc k)
  obtain w1 where t: "throttle w = Some w1" "calls w1 = calls w"
    "trace w1 = trace w @ admission w" "limiter_ok w1" "admission w1 = admission w"
    using throttle_returns [OF Suc.prems(1)] by blast
  let ?w3 = "time_Sleep (int (Suc n) * (20 * Second)) (called w1)"
  have f: "isGoogleapiCode 429 (snd (query (calls w1)))"
    using Suc.prems(2) t(2) by force
  have l: "int n < RetryLimit (Options c)" using Suc.prems(3) by simp
  have e: "getWithRetry_loop c query (int n) w = getWithRetry_loop c query (int (Suc n)) ?w3"
    using get_loop_retries [where query = query, OF t(1) f l] by (simp add: ac_simps)
  have c3: "calls ?w3 = Suc (calls w)" using t(2) by simp
  have "limiter_ok ?w3" using t(4) limiter_ok_cong [of ?w3 w1] by simp
  moreover have "\<forall>i\<le>k. isGoogleapiCode 429 (snd (query (calls ?w3 + i)))"
    using Suc.prems(2) c3 by auto
  moreover have "k = nat (RetryLimit (Options c) - int (Suc n))"
    using Suc.prems(3) by simp
  ultimately obtain w' where
    r: "getWithRetry_loop c query (int (Suc n)) ?w3 =
          Some ((None, Some (ErrorString (''rate limit exceeded after ''
                 @ fmt_d (RetryLimit (Options c)) @ '' retries''))), w')"
      "run_of ?w3 (20 * Second) (Suc n) k w'"
    using Suc.IH [of ?w3 "Suc n"] by blast
  have "run_of w (20 * Second) n (Suc k) w'"
    using run_of_step [OF t(2,3,5) r(2)] .
  then show ?case using e r(1) by simp
qed

subsection \<open>Reading the events of a run\<close>

lemma admission_cases: "admission w = [] \<or> admission w = [Admitted]"
  by (simp add: admission_def split: option.splits)

lemma attempts_append: "attempts (xs @ ys) = attempts xs + attempts ys"
  by (induction xs rule: attempts.induct) simp_all

lemma sleeps_append: "sleeps (xs @ ys) = sleeps xs @ sleeps ys"
  by (induction xs rule: sleeps.induct) simp_all

lemma attempts_admission [simp]: "attempts (admission w) = 0"
  using admission_cases [of w] by auto

lemma sleeps_admission [simp]: "sleeps (admission w) = []"
  using admission_cases [of w] by auto

lemma attempts_retry_events: "attempts (retry_events (admission w) u n k) = k"
  by (induction k arbitrary: n) (simp_all add: attempts_append)

lemma sleeps_retry_events:
  "sleeps (retry_events (admission w) u n k) = map (\<lambda>i. int i * u) [Suc n..<Suc (n + k)]"
proof (induction k arbitrary: n)
  case 0
  then show ?case by simp
next
  case (Suc k)
  have "[Suc n..<Suc (n + Suc k)] = Suc n # [Suc (Suc n)..<Suc (Suc n + k)]"
    by (simp add: upt_conv_Cons)
  then show ?case using Suc.IH [of "Suc n"] by (simp add: sleeps_append)
qed


lemma run_of_new_events:
  "run_of w u n k w' \<Longrightarrow>
   new_events w w' = retry_events (admission w) u n k @ admission w @ [Called]"
  by (simp add: run_of_def new_events_def)

lemma run_of_attempts: "run_of w u n k w' \<Longrightarrow> attempts (new_events w w') = Suc k"
  by (simp add: run_of_new_events attempts_append attempts_retry_events)

lemma run_of_sleeps: "run_of w u 0 k w' \<Longrightarrow> sleeps (new_events w w') = linear_backoffs u k"
  by (simp add: run_of_new_events sleeps_append sleeps_retry_events linear_backoffs_def)


lemma run_of_calls: "run_of w u n k w' \<Longrightarrow> calls w' = calls w + k + 1"
  by (simp add: run_of_def)




lemma fresh_world_default [simp]:
  "limiter_ok (fresh_world default_client now)"
  "calls (fresh_world default_client now) = 0"
  "limiter (fresh_world default_client now) \<noteq> None"
  "RetryLimit (Options default_client) = 10"
  "admission (fresh_world default_client now) = [Admitted]"
  by (simp_all add: fresh_world_def default_client_def limiter_ok_def NewClient_rateLimiter_def
      NewRateLimiter_def admission_def)

lemma linear_backoffs_nth:
  "1 \<le> n \<Longrightarrow> n \<le> k \<Longrightarrow> linear_backoffs u k ! (n - 1) = int n * u"
proof -
  assume n: "1 \<le> n" "n \<le> k"
  then have "[1..<Suc k] ! (n - 1) = n"
    using nth_upt [of 1 "n - 1" "Suc k"] by simp
  moreover have "n - 1 < length [1..<Suc k]" using n by simp
  ultimately show ?thesis by (simp add: linear_backoffs_def del: upt_Suc)
qed

lemma payload_wrappers_agree:
  "getWorkspaceWithRetry c query w = getTagWithRetry c query w"
  "getWorkspaceListWithRetry c query w = getTagWithRetry c query w"
  "getTagListWithRetry c query w = getTagWithRetry c query w"
  "getVariableWithRetry c query w = getTagWithRetry c query w"
  "getVariableListWithRetry c query w = getTagWithRetry c query w"
  "getTriggerWithRetry c query w = getTagWithRetry c query w"
  "getTriggerListWithRetry c query w = getTagWithRetry c query w"
  by (simp_all add: getWorkspaceWithRetry_def getWorkspaceListWithRetry_def getTagWithRetry_def
      getTagListWithRetry_def getVariableWithRetry_def getVariableListWithRetry_def
      getTriggerWithRetry_def getTriggerListWithRetry_def)

lemma fmt_d_10: "fmt_d 10 = ''10''"
  by (simp add: fmt_d_def decimal.simps digit_def)

lemma run_of_last_event: "run_of w u n k w' \<Longrightarrow> last (new_events w w') = Called"
  by (simp add: run_of_new_events)

lemma linear_backoffs_length [simp]: "length (linear_backoffs u k) = k"
  by (simp add: linear_backoffs_def)

subsection \<open>The wrappers without a limiter\<close>

lemma plain_get_loop_until_other:
  assumes "\<forall>i<k. isGoogleapiCode 429 (snd (query (calls w + i)))"
    "\<not> isGoogleapiCode 429 (snd (query (calls w + k)))"
    "k \<le> nat (retryLimit - int n)"
  shows "\<exists>w'. getResponseWithRetry_loop query retryLimit (int n) w
                 = (handed_back (query (calls w + k)), w')
           \<and> trace w' = trace w @ retry_events [] (20 * Second) n k @ [Called]"
  using assms
proof (induction k arbitrary: n w)
  case 0
  obtain resp err where q: "query (calls w) = (resp, err)" by (cases "query (calls w)")
  then show ?case
    using "0.prems"(2)
    by (subst getResponseWithRetry_loop.simps) (auto simp add: Let_def handed_back_def)
next
  case (Suc k)
  let ?w3 = "time_Sleep (int (Suc n) * (20 * Second)) (called w)"
  obtain resp err where q: "query (calls w) = (resp, err)" by (cases "query (calls w)")
  have f: "isGoogleapiCode 429 err" using Suc.prems(1) q by force
  have l: "int n < retryLimit" using Suc.prems(3) by simp
  have e: "getResponseWithRetry_loop query retryLimit (int n) w =
           getResponseWithRetry_loop query retryLimit (int (Suc n)) ?w3"
    using q f l by (subst getResponseWithRetry_loop.simps) (simp add: Let_def ac_simps)
  have c3: "calls ?w3 = Suc (calls w)" by simp
  have "\<forall>i<k. isGoogleapiCode 429 (snd (query (calls ?w3 + i)))"
    using Suc.prems(1) c3 by auto
  moreover have "\<not> isGoogleapiCode 429 (snd (query (calls ?w3 + k)))"
    using Suc.prems(2) c3 by simp
  moreover have "k \<le> nat (retryLimit - int (Suc n))"
    using Suc.prems(3) by simp
  ultimately obtain w' where
    r: "getResponseWithRetry_loop query retryLimit (int (Suc n)) ?w3
          = (handed_back (query (calls ?w3 + k)), w')"
      "trace w' = trace ?w3 @ retry_events [] (20 * Second) (Suc n) k @ [Called]"
    using Suc.IH [of ?w3 "Suc n"] by blast
  show ?case using e r by simp
qed

lemma attempts_plain_retry_events: "attempts (retry_events [] u n k) = k"
  by (induction k arbitrary: n) simp_all

lemma sleeps_plain_retry_events: "length (sleeps (retry_events [] u n k)) = k"
  by (induction k arbitrary: n) simp_all

lemma handed_back_error: "snd a = Some e \<Longrightarrow> handed_back a = (None, Some e)"
  by (simp add: handed_back_def)

lemma handed_back_success: "handed_back (resp, None) = (resp, None)"
  by (simp add: handed_back_def)

lemma code_404_not_429: "isGoogleapiCode 404 err \<Longrightarrow> \<not> isGoogleapiCode 429 err"
  by (induction "404::int" err rule: isGoogleapiCode.induct) simp_all

lemma code_404_not_nil: "isGoogleapiCode 404 err \<Longrightarrow> err \<noteq> None"
  by (cases err) simp_all

lemma run_of_single: "run_of w u n 0 w' \<Longrightarrow> single_attempt w w'"
  by (simp add: single_attempt_def run_of_new_events attempts_append sleeps_append)

lemma get_loop_404:
  assumes "limiter_ok w" "isGoogleapiCode 404 (snd (query (calls w)))"
  shows "\<exists>w'. getWithRetry_loop c query 0 w = Some ((None, snd (query (calls w))), w')
           \<and> single_attempt w w'"
proof -
  have a: "\<forall>i<0::nat. isGoogleapiCode 429 (snd (query (calls w + i)))" by simp
  have b: "\<not> isGoogleapiCode 429 (snd (query (calls w + 0)))"
    using assms(2) by (simp add: code_404_not_429)
  have h: "handed_back (query (calls w + 0)) = (None, snd (query (calls w)))"
    using code_404_not_nil [OF assms(2)] by (simp add: handed_back_def)
  show ?thesis
    using get_loop_until_other [where n = 0 and c = c, OF assms(1) a b] h run_of_single
    by fastforce
qed

lemma exec_loop_404:
  assumes "limiter_ok w" "isGoogleapiCode 404 (query (calls w))"
  shows "\<exists>w'. Client_executeWithRetry c query w = Some (query (calls w), w')
           \<and> single_attempt w w'"
proof -
  have a: "\<forall>i<0::nat. isGoogleapiCode 429 (query (calls w + i))" by simp
  have b: "\<not> isGoogleapiCode 429 (query (calls w + 0))"
    using assms(2) by (simp add: code_404_not_429)
  show ?thesis
    using exec_loop_until_other [where n = 0 and c = c, OF assms(1) a b] run_of_single
    by (fastforce simp add: Client_executeWithRetry_def)
qed

lemma read_404:
  assumes "limiter_ok w" "isGoogleapiCode 404 (snd (query (calls w)))"
  shows "\<exists>w'. (case getWithRetry_loop c query 0 w of
                 None \<Rightarrow> None
               | Some ((x, err), w1) \<Rightarrow>
                   Some (if isGoogleapiCode 404 err then (None, Some ErrNotExist)
                         else (x, err), w1))
              = Some ((None, Some ErrNotExist), w') \<and> single_attempt w w'"
  using get_loop_404 [where query = query and c = c, OF assms] assms(2) by auto

lemma list_404:
  assumes "limiter_ok w" "isGoogleapiCode 404 (snd (query (calls w)))"
  shows "\<exists>w'. (case getWithRetry_loop c query 0 w of
                 None \<Rightarrow> None
               | Some ((resp, err), w1) \<Rightarrow>
                   Some (if err \<noteq> None then Returns (None, err)
                         else (case resp of None \<Rightarrow> NilDereference
                               | Some r \<Rightarrow> Returns (Some r, None)), w1))
              = Some (Returns (None, snd (query (calls w))), w') \<and> single_attempt w w'"
  using get_loop_404 [where query = query and c = c, OF assms] code_404_not_nil [OF assms(2)] by auto

section \<open>The claims on the retry wrappers and the operations\<close>

text \<open>
  C2. With a retry limit of at least 0 and a remote call that answers 429 at every attempt,
  \<^verbatim>\<open>executeWithRetry\<close> and \<^verbatim>\<open>getTagWithRetry\<close> make exactly \<open>RetryLimit + 1\<close> attempts and
  then return the error \<open>rate limit exceeded after RetryLimit retries\<close>, the payload
  wrapper with a nil payload. The limiter, if any, is one from which \<^verbatim>\<open>Wait\<close> comes back.
\<close>

theorem always_rate_limited_exhausts_retries:
  assumes "0 \<le> RetryLimit (Options c)" "limiter_ok w"
    and "\<forall>i. isGoogleapiCode 429 (query (calls w + i))"
    and "\<forall>i. isGoogleapiCode 429 (snd (pquery (calls w + i)))"
  shows "(\<exists>w'. Client_executeWithRetry c query w =
                 Some (Some (ErrorString (''rate limit exceeded after ''
                   @ fmt_d (RetryLimit (Options c)) @ '' retries'')), w')
              \<and> int (attempts (new_events w w')) = RetryLimit (Options c) + 1)
       \<and> (\<exists>w'. getTagWithRetry c pquery w =
                 Some ((None, Some (ErrorString (''rate limit exceeded after ''
                   @ fmt_d (RetryLimit (Options c)) @ '' retries''))), w')
              \<and> int (attempts (new_events w w')) = RetryLimit (Options c) + 1)"
proof -
  let ?k = "nat (RetryLimit (Options c))"
  have k: "?k = nat (RetryLimit (Options c) - int 0)" by simp
  have a: "\<forall>i\<le>?k. isGoogleapiCode 429 (query (calls w + i))" using assms(3) by simp
  have b: "\<forall>i\<le>?k. isGoogleapiCode 429 (snd (pquery (calls w + i)))" using assms(4) by simp
  have n: "int (Suc ?k) = RetryLimit (Options c) + 1" using assms(1) by simp
  show ?thesis
    using exec_loop_until_exhausted [OF assms(2) a k] get_loop_until_exhausted [OF assms(2) b k] n
    by (auto simp add: Client_executeWithRetry_def getTagWithRetry_def dest!: run_of_attempts)
qed

theorem always_rate_limited_exhausts_retries_witness:
  "(\<exists>w'. Client_executeWithRetry default_client (\<lambda>i. Some (GoogleapiError 429 ''quota''))
            (fresh_world default_client 0) =
              Some (Some (ErrorString ''rate limit exceeded after 10 retries''), w')
          \<and> attempts (new_events (fresh_world default_client 0) w') = 11)
   \<and> (\<exists>w'. getTagWithRetry default_client
              (\<lambda>i. (None :: nat option, Some (GoogleapiError 429 ''quota'')))
              (fresh_world default_client 0) =
              Some ((None, Some (ErrorString ''rate limit exceeded after 10 retries'')), w')
          \<and> attempts (new_events (fresh_world default_client 0) w') = 11)"
  using always_rate_limited_exhausts_retries
          [of default_client "fresh_world default_client 0"
              "\<lambda>i. Some (GoogleapiError 429 ''quota'')"
              "\<lambda>i. (None :: nat option, Some (GoogleapiError 429 ''quota''))"]
  by (simp add: fmt_d_10)

text \<open>
  C3, amended. When the remote call answers with a \<^verbatim>\<open>*googleapi.Error\<close> of code 404, every
  operation makes that one attempt and no backoff sleep; the four reads by id return
  \<open>ErrNotExist\<close> with a nil payload, and the create, update and list operations return the
  404 error itself.
\<close>

theorem not_found_is_never_retried:
  assumes "limiter_ok w"
    and "isGoogleapiCode 404 (snd (query (calls w)))"
    and "isGoogleapiCode 404 (snd (lquery (calls w)))"
    and "isGoogleapiCode 404 (dquery (calls w))"
  shows "(\<exists>w'. Workspace c query w = Some ((None, Some ErrNotExist), w') \<and> single_attempt w w')
       \<and> (\<exists>w'. Tag c query w = Some ((None, Some ErrNotExist), w') \<and> single_attempt w w')
       \<and> (\<exists>w'. Variable c query w = Some ((None, Some ErrNotExist), w') \<and> single_attempt w w')
       \<and> (\<exists>w'. Trigger c query w = Some ((None, Some ErrNotExist), w') \<and> single_attempt w w')
       \<and> (\<exists>w'. CreateWorkspace c query w = Some ((None, snd (query (calls w))), w')
              \<and> single_attempt w w')
       \<and> (\<exists>w'. CreateTag c query w = Some ((None, snd (query (calls w))), w')
              \<and> single_attempt w w')
       \<and> (\<exists>w'. CreateVariable c query w = Some ((None, snd (query (calls w))), w')
              \<and> single_attempt w w')
       \<and> (\<exists>w'. CreateTrigger c query w = Some ((None, snd (query (calls w))), w')
              \<and> single_attempt w w')
       \<and> (\<exists>w'. UpdateWorkspaces c query w = Some ((None, snd (query (calls w))), w')
              \<and> single_attempt w w')
       \<and> (\<exists>w'. UpdateTag c query w = Some ((None, snd (query (calls w))), w')
              \<and> single_attempt w w')
       \<and> (\<exists>w'. UpdateVariable c query w = Some ((None, snd (query (calls w))), w')
              \<and> single_attempt w w')
       \<and> (\<exists>w'. UpdateTrigger c query w = Some ((None, snd (query (calls w))), w')
              \<and> single_attempt w w')
       \<and> (\<exists>w'. ListWorkspaces c lquery w = Some (Returns (None, snd (lquery (calls w))), w')
              \<and> single_attempt w w')
       \<and> (\<exists>w'. ListTags c lquery w = Some (Returns (None, snd (lquery (calls w))), w')
              \<and> single_attempt w w')
       \<and> (\<exists>w'. ListVariables c lquery w = Some (Returns (None, snd (lquery (calls w))), w')
              \<and> single_attempt w w')
       \<and> (\<exists>w'. ListTriggers c lquery w = Some (Returns (None, snd (lquery (calls w))), w')
              \<and> single_attempt w w')
       \<and> (\<exists>r w'. DeleteWorkspace c dquery w = Some (r, w') \<and> single_attempt w w')
       \<and> (\<exists>r w'. DeleteTag c dquery w = Some (r, w') \<and> single_attempt w w')
       \<and> (\<exists>r w'. DeleteVariable c dquery w = Some (r, w') \<and> single_attempt w w')
       \<and> (\<exists>r w'. DeleteTrigger c dquery w = Some (r, w') \<and> single_attempt w w')"
proof -
  note r = read_404 [where query = query and c = c, OF assms(1,2)]
  note g = get_loop_404 [where query = query and c = c, OF assms(1,2)]
  note l = list_404 [where query = lquery and c = c, OF assms(1,3)]
  have d: "\<exists>r w'. Client_executeWithRetry c dquery w = Some (r, w') \<and> single_attempt w w'"
    using exec_loop_404 [where query = dquery and c = c, OF assms(1,4)] by blast
  have "\<exists>w'. Workspace c query w = Some ((None, Some ErrNotExist), w') \<and> single_attempt w w'"
    using r by (simp add: Workspace_def getWorkspaceWithRetry_def)
  moreover have "\<exists>w'. Tag c query w = Some ((None, Some ErrNotExist), w') \<and> single_attempt w w'"
    using r by (simp add: Tag_def getTagWithRetry_def)
  moreover have "\<exists>w'. Variable c query w = Some ((None, Some ErrNotExist), w') \<and> single_attempt w w'"
    using r by (simp add: Variable_def getVariableWithRetry_def)
  moreover have "\<exists>w'. Trigger c query w = Some ((None, Some ErrNotExist), w') \<and> single_attempt w w'"
    using r by (simp add: Trigger_def getTriggerWithRetry_def)
  moreover have "\<exists>w'. CreateWorkspace c query w = Some ((None, snd (query (calls w))), w')
              \<and> single_attempt w w'"
    using g by (simp add: CreateWorkspace_def getWorkspaceWithRetry_def)
  moreover have "\<exists>w'. CreateTag c query w = Some ((None, snd (query (calls w))), w')
              \<and> single_attempt w w'"
    using g by (simp add: CreateTag_def getTagWithRetry_def)
  moreover have "\<exists>w'. CreateVariable c query w = Some ((None, snd (query (calls w))), w')
              \<and> single_attempt w w'"
    using g by (simp add: CreateVariable_def getVariableWithRetry_def)
  moreover have "\<exists>w'. CreateTrigger c query w = Some ((None, snd (query (calls w))), w')
              \<and> single_attempt w w'"
    using g by (simp add: CreateTrigger_def getTriggerWithRetry_def)
  moreover have "\<exists>w'. UpdateWorkspaces c query w = Some ((None, snd (query (calls w))), w')
              \<and> single_attempt w w'"
    using g by (simp add: UpdateWorkspaces_def getWorkspaceWithRetry_def)
  moreover have "\<exists>w'. UpdateTag c query w = Some ((None, snd (query (calls w))), w')
              \<and> single_attempt w w'"
    using g by (simp add: UpdateTag_def getTagWithRetry_def)
  moreover have "\<exists>w'. UpdateVariable c query w = Some ((None, snd (query (calls w))), w')
              \<and> single_attempt w w'"
    using g by (simp add: UpdateVariable_def getVariableWithRetry_def)
  moreover have "\<exists>w'. UpdateTrigger c query w = Some ((None, snd (query (calls w))), w')
              \<and> single_attempt w w'"
    using g by (simp add: UpdateTrigger_def getTriggerWithRetry_def)
  moreover have "\<exists>w'. ListWorkspaces c lquery w = Some (Returns (None, snd (lquery (calls w))), w')
              \<and> single_attempt w w'"
    using l by (simp add: ListWorkspaces_def getWorkspaceListWithRetry_def)
  moreover have "\<exists>w'. ListTags c lquery w = Some (Returns (None, snd (lquery (calls w))), w')
              \<and> single_attempt w w'"
    using l by (simp add: ListTags_def getTagListWithRetry_def)
  moreover have "\<exists>w'. ListVariables c lquery w = Some (Returns (None, snd (lquery (calls w))), w')
              \<and> single_attempt w w'"
    using l by (simp add: ListVariables_def getVariableListWithRetry_def)
  moreover have "\<exists>w'. ListTriggers c lquery w = Some (Returns (None, snd (lquery (calls w))), w')
              \<and> single_attempt w w'"
    using l by (simp add: ListTriggers_def getTriggerListWithRetry_def)
  moreover have "\<exists>r w'. DeleteWorkspace c dquery w = Some (r, w') \<and> single_attempt w w'"
    using d by (simp add: DeleteWorkspace_def)
  moreover have "\<exists>r w'. DeleteTag c dquery w = Some (r, w') \<and> single_attempt w w'"
    using d by (simp add: DeleteTag_def)
  moreover have "\<exists>r w'. DeleteVariable c dquery w = Some (r, w') \<and> single_attempt w w'"
    using d by (simp add: DeleteVariable_def)
  moreover have "\<exists>r w'. DeleteTrigger c dquery w = Some (r, w') \<and> single_attempt w w'"
    using d by (simp add: DeleteTrigger_def)
  ultimately show ?thesis by blast
qed

theorem not_found_is_never_retried_witness:
  "(\<exists>w'. Tag default_client
            (\<lambda>i. (None :: nat option, Some (GoogleapiError 404 ''Not Found'')))
            (fresh_world default_client 0) = Some ((None, Some ErrNotExist), w')
          \<and> single_attempt (fresh_world default_client 0) w')
   \<and> (\<exists>w'. UpdateTag default_client
            (\<lambda>i. (None :: nat option, Some (GoogleapiError 404 ''Not Found'')))
            (fresh_world default_client 0)
            = Some ((None, Some (GoogleapiError 404 ''Not Found'')), w')
          \<and> single_attempt (fresh_world default_client 0) w')
   \<and> (\<exists>w'. ListTags default_client
            (\<lambda>i. (None :: nat list option, Some (GoogleapiError 404 ''Not Found'')))
            (fresh_world default_client 0)
            = Some (Returns (None, Some (GoogleapiError 404 ''Not Found'')), w')
          \<and> single_attempt (fresh_world default_client 0) w')
   \<and> (\<exists>r w'. DeleteTag default_client (\<lambda>i. Some (GoogleapiError 404 ''Not Found''))
            (fresh_world default_client 0) = Some (r, w')
          \<and> single_attempt (fresh_world default_client 0) w')"
  using not_found_is_never_retried
          [of "fresh_world default_client 0"
              "\<lambda>i. (None :: nat option, Some (GoogleapiError 404 ''Not Found''))"
              "\<lambda>i. (None :: nat list option, Some (GoogleapiError 404 ''Not Found''))"
              "\<lambda>i. Some (GoogleapiError 404 ''Not Found'')"
              default_client]
  by simp

text \<open>
  C3 as stated fails for \<^verbatim>\<open>UpdateTag\<close>: a 404 from the remote call comes back as it is,
  not as \<open>ErrNotExist\<close>.
\<close>

theorem UpdateTag_hands_back_the_404:
  "map_option fst (UpdateTag default_client
       (\<lambda>i. (None :: nat option, Some (GoogleapiError 404 ''Not Found'')))
       (fresh_world default_client 0))
     = Some (None, Some (GoogleapiError 404 ''Not Found''))
   \<and> map_option fst (UpdateTag default_client
       (\<lambda>i. (None :: nat option, Some (GoogleapiError 404 ''Not Found'')))
       (fresh_world default_client 0))
     \<noteq> Some (None, Some ErrNotExist)"
proof -
  have "isGoogleapiCode 404
          (snd ((\<lambda>i. (None :: nat option, Some (GoogleapiError 404 ''Not Found'')))
             (calls (fresh_world default_client 0))))"
    by simp
  from get_loop_404 [where c = default_client
      and query = "\<lambda>i. (None :: nat option, Some (GoogleapiError 404 ''Not Found''))",
      OF fresh_world_default(1) [of 0] this]
  show ?thesis
    by (auto simp add: UpdateTag_def getTagWithRetry_def ErrNotExist_def)
qed




text \<open>
  C5. When the remote call answers 429 to the first \<open>k\<close> attempts, \<open>k\<close> within the retry
  limit, and succeeds at the next one, the wrapper returns that success with no error,
  after \<open>k + 1\<close> attempts and exactly \<open>k\<close> backoff sleeps.
\<close>

theorem succeeds_after_rate_limits:
  assumes "limiter_ok w" "int k \<le> RetryLimit (Options c)"
    and "\<forall>i<k. isGoogleapiCode 429 (snd (pquery (calls w + i)))"
        "pquery (calls w + k) = (resp, None)"
    and "\<forall>i<k. isGoogleapiCode 429 (query (calls w + i))" "query (calls w + k) = None"
  shows "(\<exists>w'. getTagWithRetry c pquery w = Some ((resp, None), w')
              \<and> attempts (new_events w w') = Suc k
              \<and> sleeps (new_events w w') = linear_backoffs (20 * Second) k)
       \<and> (\<exists>w'. Client_executeWithRetry c query w = Some (None, w')
              \<and> attempts (new_events w w') = Suc k
              \<and> sleeps (new_events w w') = linear_backoffs Second k)"
proof -
  have k: "k \<le> nat (RetryLimit (Options c) - int 0)" using assms(2) by simp
  have p: "\<not> isGoogleapiCode 429 (snd (pquery (calls w + k)))" using assms(4) by simp
  have q: "\<not> isGoogleapiCode 429 (query (calls w + k))" using assms(6) by simp
  obtain w1 where g: "getWithRetry_loop c pquery (int 0) w = Some (handed_back (pquery (calls w + k)), w1)"
    "run_of w (20 * Second) 0 k w1"
    using get_loop_until_other [OF assms(1,3) p k] by blast
  obtain w2 where e: "Client_executeWithRetry_loop c query (int 0) w = Some (query (calls w + k), w2)"
    "run_of w Second 0 k w2"
    using exec_loop_until_other [OF assms(1,5) q k] by blast
  have "getTagWithRetry c pquery w = Some ((resp, None), w1)"
    using g(1) assms(4) by (simp add: getTagWithRetry_def handed_back_success)
  moreover have "Client_executeWithRetry c query w = Some (None, w2)"
    using e(1) assms(6) by (simp add: Client_executeWithRetry_def)
  ultimately show ?thesis
    using run_of_attempts [OF g(2)] run_of_sleeps [OF g(2)]
      run_of_attempts [OF e(2)] run_of_sleeps [OF e(2)] by blast
qed

theorem succeeds_after_rate_limits_witness:
  "(\<exists>w'. getTagWithRetry default_client
            (\<lambda>i. if i < 2 then (None, Some (GoogleapiError 429 ''quota''))
                  else (Some (7::nat), None))
            (fresh_world default_client 0) = Some ((Some 7, None), w')
          \<and> attempts (new_events (fresh_world default_client 0) w') = 3
          \<and> sleeps (new_events (fresh_world default_client 0) w')
              = [20000000000, 40000000000])
   \<and> (\<exists>w'. Client_executeWithRetry default_client
            (\<lambda>i. if i < 2 then Some (GoogleapiError 429 ''quota'') else None)
            (fresh_world default_client 0) = Some (None, w')
          \<and> attempts (new_events (fresh_world default_client 0) w') = 3
          \<and> sleeps (new_events (fresh_world default_client 0) w')
              = [1000000000, 2000000000])"
proof -
  have l: "linear_backoffs u 2 = [u, 2 * u]" for u
    by (simp add: linear_backoffs_def upt_rec)
  show ?thesis
    using succeeds_after_rate_limits
          [of "fresh_world default_client 0" 2 default_client
              "\<lambda>i. if i < 2 then (None, Some (GoogleapiError 429 ''quota''))
                    else (Some (7::nat), None)"
              "Some 7"
              "\<lambda>i. if i < 2 then Some (GoogleapiError 429 ''quota'') else None"]
    by (simp add: l Second_def)
qed

text \<open>
  C6. When the remote call answers 429 to the first \<open>k\<close> attempts, \<open>k\<close> within the retry
  limit, and the run ends there (the next answer is something else, or the limit is
  reached), the wrapper makes \<open>k\<close> retries, and the sleep before retry \<open>n\<close> lasts
  \<open>n\<close> seconds in \<^verbatim>\<open>executeWithRetry\<close> and \<open>20 n\<close> seconds in \<^verbatim>\<open>getTagWithRetry\<close>, for
  every \<open>n\<close> from 1 to \<open>k\<close>; each sleep lies between the failed call and the next attempt.
\<close>

theorem backoff_is_linear:
  assumes "limiter_ok w" "k \<le> nat (RetryLimit (Options c))"
    and "\<forall>i<k. isGoogleapiCode 429 (query (calls w + i))"
        "\<not> isGoogleapiCode 429 (query (calls w + k)) \<or> k = nat (RetryLimit (Options c))"
    and "\<forall>i<k. isGoogleapiCode 429 (snd (pquery (calls w + i)))"
        "\<not> isGoogleapiCode 429 (snd (pquery (calls w + k))) \<or> k = nat (RetryLimit (Options c))"
  shows "(\<exists>r w'. Client_executeWithRetry c query w = Some (r, w')
              \<and> attempts (new_events w w') = Suc k
              \<and> sleeps (new_events w w') = linear_backoffs Second k
              \<and> new_events w w' = retry_events (admission w) Second 0 k @ admission w @ [Called])
       \<and> (\<exists>r w'. getTagWithRetry c pquery w = Some (r, w')
              \<and> attempts (new_events w w') = Suc k
              \<and> sleeps (new_events w w') = linear_backoffs (20 * Second) k
              \<and> new_events w w'
                  = retry_events (admission w) (20 * Second) 0 k @ admission w @ [Called])"
proof -
  have k: "k \<le> nat (RetryLimit (Options c) - int 0)" using assms(2) by simp
  have e: "\<exists>r w'. Client_executeWithRetry_loop c query (int 0) w = Some (r, w')
             \<and> run_of w Second 0 k w'"
  proof (cases "isGoogleapiCode 429 (query (calls w + k))")
    case False
    then show ?thesis using exec_loop_until_other [OF assms(1,3) _ k] by blast
  next
    case True
    then have m: "k = nat (RetryLimit (Options c) - int 0)" using assms(4) by simp
    have "\<forall>i\<le>k. isGoogleapiCode 429 (query (calls w + i))"
      using assms(3) True by (simp add: le_less)
    then show ?thesis using exec_loop_until_exhausted [OF assms(1) _ m] by blast
  qed
  have g: "\<exists>r w'. getWithRetry_loop c pquery (int 0) w = Some (r, w')
             \<and> run_of w (20 * Second) 0 k w'"
  proof (cases "isGoogleapiCode 429 (snd (pquery (calls w + k)))")
    case False
    then show ?thesis using get_loop_until_other [OF assms(1,5) _ k] by blast
  next
    case True
    then have m: "k = nat (RetryLimit (Options c) - int 0)" using assms(6) by simp
    have "\<forall>i\<le>k. isGoogleapiCode 429 (snd (pquery (calls w + i)))"
      using assms(5) True by (simp add: le_less)
    then show ?thesis using get_loop_until_exhausted [OF assms(1) _ m] by blast
  qed
  obtain r1 w1 where 1: "Client_executeWithRetry c query w = Some (r1, w1)"
    "run_of w Second 0 k w1"
    using e by (auto simp add: Client_executeWithRetry_def)
  obtain r2 w2 where 2: "getTagWithRetry c pquery w = Some (r2, w2)"
    "run_of w (20 * Second) 0 k w2"
    using g by (auto simp add: getTagWithRetry_def)
  show ?thesis
    using 1(1) 2(1) run_of_attempts [OF 1(2)] run_of_sleeps [OF 1(2)] run_of_new_events [OF 1(2)]
      run_of_attempts [OF 2(2)] run_of_sleeps [OF 2(2)] run_of_new_events [OF 2(2)] by blast
qed

theorem backoff_is_linear_witness:
  "(\<exists>r w'. Client_executeWithRetry default_client
            (\<lambda>i. if i < 2 then Some (GoogleapiError 429 ''quota'') else None)
            (fresh_world default_client 0) = Some (r, w')
          \<and> attempts (new_events (fresh_world default_client 0) w') = 3
          \<and> sleeps (new_events (fresh_world default_client 0) w') = [1000000000, 2000000000]
          \<and> new_events (fresh_world default_client 0) w'
              = [Admitted, Called, Slept 1000000000, Admitted, Called, Slept 2000000000,
                 Admitted, Called])
   \<and> (\<exists>r w'. getTagWithRetry default_client
            (\<lambda>i. if i < 2 then (None, Some (GoogleapiError 429 ''quota''))
                  else (Some (7::nat), None))
            (fresh_world default_client 0) = Some (r, w')
          \<and> attempts (new_events (fresh_world default_client 0) w') = 3
          \<and> sleeps (new_events (fresh_world default_client 0) w')
              = [20000000000, 40000000000]
          \<and> new_events (fresh_world default_client 0) w'
              = [Admitted, Called, Slept 20000000000, Admitted, Called, Slept 40000000000,
                 Admitted, Called])"
proof -
  have l: "linear_backoffs u 2 = [u, 2 * u]" for u
    by (simp add: linear_backoffs_def upt_rec)
  have r: "retry_events adm u 0 2 = adm @ [Called, Slept u] @ adm @ [Called, Slept (2 * u)]"
    for adm u
    by (simp add: numeral_2_eq_2)
  show ?thesis
    using backoff_is_linear [of "fresh_world default_client 0" 2 default_client
              "\<lambda>i. if i < 2 then Some (GoogleapiError 429 ''quota'') else None"
              "\<lambda>i. if i < 2 then (None, Some (GoogleapiError 429 ''quota''))
                    else (Some (7::nat), None)"]
    by (simp add: l r Second_def)
qed

text \<open>
  C10. An error that is not a \<^verbatim>\<open>*googleapi.Error\<close> with code 429 ends the run: once the remote
  call answers with such an error (after \<open>k\<close> rate-limited attempts), the wrappers of both
  clients return that very error, the call that produced it is the last event, and no
  sleep follows it. An error that wraps a 429 is such an error.
\<close>

theorem other_errors_are_not_retried:
  assumes "limiter_ok w" "k \<le> nat (RetryLimit (Options c))" "\<not> isGoogleapiCode 429 (Some e)"
    and "\<forall>i<k. isGoogleapiCode 429 (query (calls w + i))" "query (calls w + k) = Some e"
    and "\<forall>i<k. isGoogleapiCode 429 (snd (pquery (calls w + i)))"
        "pquery (calls w + k) = (resp, Some e)"
  shows "(\<exists>w'. Client_executeWithRetry c query w = Some (Some e, w')
              \<and> attempts (new_events w w') = Suc k
              \<and> length (sleeps (new_events w w')) = k
              \<and> last (new_events w w') = Called)
       \<and> (\<exists>w'. getTagWithRetry c pquery w = Some ((None, Some e), w')
              \<and> attempts (new_events w w') = Suc k
              \<and> length (sleeps (new_events w w')) = k
              \<and> last (new_events w w') = Called)
       \<and> (\<exists>w'. getResponseWithRetry pquery (RetryLimit (Options c)) w = ((None, Some e), w')
              \<and> attempts (new_events w w') = Suc k
              \<and> length (sleeps (new_events w w')) = k
              \<and> last (new_events w w') = Called)"
proof -
  have k: "k \<le> nat (RetryLimit (Options c) - int 0)" using assms(2) by simp
  have p: "\<not> isGoogleapiCode 429 (snd (pquery (calls w + k)))" using assms(3,7) by simp
  have q: "\<not> isGoogleapiCode 429 (query (calls w + k))" using assms(3,5) by simp
  have h: "handed_back (pquery (calls w + k)) = (None, Some e)"
    using assms(7) by (simp add: handed_back_error)
  obtain w1 where e: "Client_executeWithRetry_loop c query (int 0) w = Some (query (calls w + k), w1)"
    "run_of w Second 0 k w1"
    using exec_loop_until_other [OF assms(1,4) q k] by blast
  obtain w2 where g: "getWithRetry_loop c pquery (int 0) w = Some (handed_back (pquery (calls w + k)), w2)"
    "run_of w (20 * Second) 0 k w2"
    using get_loop_until_other [OF assms(1,6) p k] by blast
  obtain w3 where r: "getResponseWithRetry_loop pquery (RetryLimit (Options c)) (int 0) w
        = (handed_back (pquery (calls w + k)), w3)"
    "trace w3 = trace w @ retry_events [] (20 * Second) 0 k @ [Called]"
    using plain_get_loop_until_other [OF assms(6) p k] by blast
  have n3: "new_events w w3 = retry_events [] (20 * Second) 0 k @ [Called]"
    using r(2) by (simp add: new_events_def)
  have 1: "\<exists>w'. Client_executeWithRetry c query w = Some (Some e, w')
              \<and> attempts (new_events w w') = Suc k
              \<and> length (sleeps (new_events w w')) = k
              \<and> last (new_events w w') = Called"
    using e(1) assms(5) run_of_attempts [OF e(2)] run_of_sleeps [OF e(2)] run_of_last_event [OF e(2)]
    by (simp add: Client_executeWithRetry_def)
  have 2: "\<exists>w'. getTagWithRetry c pquery w = Some ((None, Some e), w')
              \<and> attempts (new_events w w') = Suc k
              \<and> length (sleeps (new_events w w')) = k
              \<and> last (new_events w w') = Called"
    using g(1) h run_of_attempts [OF g(2)] run_of_sleeps [OF g(2)] run_of_last_event [OF g(2)]
    by (simp add: getTagWithRetry_def)
  have 3: "\<exists>w'. getResponseWithRetry pquery (RetryLimit (Options c)) w = ((None, Some e), w')
              \<and> attempts (new_events w w') = Suc k
              \<and> length (sleeps (new_events w w')) = k
              \<and> last (new_events w w') = Called"
    using r(1) h n3
    by (simp add: getResponseWithRetry_def attempts_append sleeps_append
        attempts_plain_retry_events sleeps_plain_retry_events)
  show ?thesis using 1 2 3 by blast
qed

theorem other_errors_are_not_retried_witness:
  "(\<exists>w'. Client_executeWithRetry default_client
            (\<lambda>i. if i < 1 then Some (GoogleapiError 429 ''quota'')
                  else Some (WrapError ''remote call'' (GoogleapiError 429 ''quota'')))
            (fresh_world default_client 0)
            = Some (Some (WrapError ''remote call'' (GoogleapiError 429 ''quota'')), w')
          \<and> attempts (new_events (fresh_world default_client 0) w') = 2
          \<and> length (sleeps (new_events (fresh_world default_client 0) w')) = 1
          \<and> last (new_events (fresh_world default_client 0) w') = Called)
   \<and> (\<exists>w'. getTagWithRetry default_client
            (\<lambda>i. if i < 1 then (None, Some (GoogleapiError 429 ''quota''))
                  else (Some (7::nat),
                        Some (WrapError ''remote call'' (GoogleapiError 429 ''quota''))))
            (fresh_world default_client 0)
            = Some ((None, Some (WrapError ''remote call'' (GoogleapiError 429 ''quota''))), w')
          \<and> attempts (new_events (fresh_world default_client 0) w') = 2
          \<and> length (sleeps (new_events (fresh_world default_client 0) w')) = 1
          \<and> last (new_events (fresh_world default_client 0) w') = Called)
   \<and> (\<exists>w'. getResponseWithRetry
            (\<lambda>i. if i < 1 then (None, Some (GoogleapiError 429 ''quota''))
                  else (Some (7::nat),
                        Some (WrapError ''remote call'' (GoogleapiError 429 ''quota''))))
            10 (fresh_world default_client 0)
            = ((None, Some (WrapError ''remote call'' (GoogleapiError 429 ''quota''))), w')
          \<and> attempts (new_events (fresh_world default_client 0) w') = 2
          \<and> length (sleeps (new_events (fresh_world default_client 0) w')) = 1
          \<and> last (new_events (fresh_world default_client 0) w') = Called)"
  using other_errors_are_not_retried
          [of "fresh_world default_client 0" 1 default_client
              "WrapError ''remote call'' (GoogleapiError 429 ''quota'')"
              "\<lambda>i. if i < 1 then Some (GoogleapiError 429 ''quota'')
                    else Some (WrapError ''remote call'' (GoogleapiError 429 ''quota''))"
              "\<lambda>i. if i < 1 then (None, Some (GoogleapiError 429 ''quota''))
                    else (Some (7::nat),
                          Some (WrapError ''remote call'' (GoogleapiError 429 ''quota'')))"
              "Some 7"]
  by (simp add: numeral_2_eq_2)

end
